theory Spec2Isabelle
  imports Complex_Main "HOL-Library.Sublist"
begin

section \<open>Data model\<close>

text \<open>
  The program (\<^verbatim>\<open>src/eduValidUrlChecking.py\<close>) keeps its table in a pandas DataFrame.
  A cell of an object column is either the missing value (\<^verbatim>\<open>NaN\<close>; the \<^verbatim>\<open>None\<close> that
  \<^verbatim>\<open>merged.get\<close> returns for an absent column behaves the same under \<^verbatim>\<open>pd.isna\<close>) or a
  text.
\<close>

datatype cell = NaN | Str string

text \<open>
  A row of the input file as \<^verbatim>\<open>pd.read_csv(INPUT_PATH)\<close> delivers it: the cell of the
  detected URL column and the remaining columns, which the program never inspects.
  The input file is taken to carry no \<^verbatim>\<open>status\<close> or \<^verbatim>\<open>status_detail\<close> column of its own.
\<close>

record 'a orig_row =
  o_url :: cell
  o_other :: 'a

text \<open>A row of the working table (and of a previous output): the same plus the two status columns.\<close>

record 'a row =
  url_cell :: cell
  other :: 'a
  status :: cell
  status_detail :: cell

text \<open>
  A DataFrame with the columns the program looks for. The flags say whether the column
  named \<^verbatim>\<open>url_col\<close>, \<^verbatim>\<open>status\<close> and \<^verbatim>\<open>status_detail\<close> exists; a field of a row whose
  column does not exist carries no information.
\<close>

record 'a frame =
  has_url :: bool
  has_status :: bool
  has_detail :: bool
  rows :: "'a row list"

text \<open>
  What \<^verbatim>\<open>os.path.exists(OUTPUT_CSV)\<close> and \<^verbatim>\<open>pd.read_csv(OUTPUT_CSV)\<close> find at startup:
  no file, a file that \<^verbatim>\<open>read_csv\<close> raises on, or a parsed frame.
\<close>

datatype 'a prev_csv = NoFile | Unreadable | Parsed "'a frame"

section \<open>Python string helpers\<close>

text \<open>\<^verbatim>\<open>str.isspace\<close> on the characters below 256, \<^verbatim>\<open>str.strip()\<close> and \<^verbatim>\<open>str.lower()\<close> on ASCII.\<close>

definition isspace :: "char \<Rightarrow> bool" where
  "isspace c = (c \<in> set [CHR 0x09, CHR 0x0A, CHR 0x0B, CHR 0x0C, CHR 0x0D, CHR 0x1C, CHR 0x1D,
                         CHR 0x1E, CHR 0x1F, CHR 0x20, CHR 0x85, CHR 0xA0])"

definition strip :: "string \<Rightarrow> string" where
  "strip s = rev (dropWhile isspace (rev (dropWhile isspace s)))"

definition lower_char :: "char \<Rightarrow> char" where
  "lower_char c =
     (case map_of (zip ''ABCDEFGHIJKLMNOPQRSTUVWXYZ'' ''abcdefghijklmnopqrstuvwxyz'') c of
        None \<Rightarrow> c
      | Some d \<Rightarrow> d)"

definition lower :: "string \<Rightarrow> string" where
  "lower s = map lower_char s"

text \<open>\<^verbatim>\<open>str(value)\<close> of a cell: the missing value prints as \<^verbatim>\<open>nan\<close>.\<close>

fun str :: "cell \<Rightarrow> string" where
  "str NaN = ''nan''"
| "str (Str s) = s"

section \<open>Start-up reconciliation (\<^verbatim>\<open>main\<close>, lines 213 to 254)\<close>

text \<open>Lines 242 to 244 (and 247 to 249, 252 to 254): the input with two empty status columns.\<close>

definition fresh_row :: "'a orig_row \<Rightarrow> 'a row" where
  "fresh_row r = \<lparr>url_cell = o_url r, other = o_other r, status = Str '''', status_detail = Str ''''\<rparr>"

definition start_fresh :: "'a orig_row list \<Rightarrow> 'a frame" where
  "start_fresh original_df =
     \<lparr>has_url = True, has_status = True, has_detail = True, rows = map fresh_row original_df\<rparr>"

text \<open>
  \<^verbatim>\<open>merged.merge(prev_subset, on=url_col, how="left")\<close>, line 229: pandas' left join. The rows
  of the left frame keep their order; a left row is repeated once for every right row
  with an equal key, in the right frame's order, and appears once with missing values
  when no right row matches. Missing keys match each other, as in pandas.
\<close>

definition joined :: "'a orig_row \<Rightarrow> 'a row \<Rightarrow> 'a row" where
  "joined l p = \<lparr>url_cell = o_url l, other = o_other l, status = status p, status_detail = status_detail p\<rparr>"

definition unmatched :: "'a orig_row \<Rightarrow> 'a row" where
  "unmatched l = \<lparr>url_cell = o_url l, other = o_other l, status = NaN, status_detail = NaN\<rparr>"

fun matching :: "cell \<Rightarrow> 'a row list \<Rightarrow> 'a row list" where
  "matching k [] = []"
| "matching k (p # ps) = (if url_cell p = k then p # matching k ps else matching k ps)"

fun merge_left :: "'a orig_row list \<Rightarrow> 'a row list \<Rightarrow> 'a row list" where
  "merge_left [] prev = []"
| "merge_left (l # ls) prev =
     (case matching (o_url l) prev of
        [] \<Rightarrow> [unmatched l]
      | m # ms \<Rightarrow> map (joined l) (m # ms)) @ merge_left ls prev"

text \<open>
  Lines 226 to 237. When the previous output has a \<^verbatim>\<open>status\<close> column, line 228 selects
  \<^verbatim>\<open>[url_col, "status", "status_detail"]\<close>, which raises \<^verbatim>\<open>KeyError\<close> if \<^verbatim>\<open>status_detail\<close> is
  missing (\<open>None\<close> below; the handler of line 245 then starts fresh). When it has no
  \<^verbatim>\<open>status\<close> column only the URL column is joined and lines 231 to 234 fill both status
  columns with \<^verbatim>\<open>None\<close>.
\<close>

definition clear_status :: "'a row \<Rightarrow> 'a row" where
  "clear_status r = r\<lparr>status := NaN, status_detail := NaN\<rparr>"

text \<open>
  The dtype \<^verbatim>\<open>read_csv\<close> gives a column of this model: a column that has rows and no text in
  any of them is \<^verbatim>\<open>float64\<close>; a column with a text, or without rows, is \<^verbatim>\<open>object\<close>.
\<close>

datatype dtype = Object | Float64

definition column_dtype :: "cell list \<Rightarrow> dtype" where
  "column_dtype cs = (if cs \<noteq> [] \<and> list_all (\<lambda>c. c = NaN) cs then Float64 else Object)"

text \<open>
  \<^verbatim>\<open>DataFrame.merge\<close> checks the key columns before it joins: when both have rows and one
  is \<^verbatim>\<open>float64\<close> while the other is an \<^verbatim>\<open>object\<close> column holding text it raises
  \<^verbatim>\<open>ValueError\<close>. With the two dtypes of this model that is every pair of unequal dtypes
  of columns that have rows.
\<close>

definition merge_raises :: "cell list \<Rightarrow> cell list \<Rightarrow> bool" where
  "merge_raises lk rk = (lk \<noteq> [] \<and> rk \<noteq> [] \<and> column_dtype lk \<noteq> column_dtype rk)"

text \<open>
  Lines 226 to 237, \<open>None\<close> when line 228 raises \<^verbatim>\<open>KeyError\<close> or line 229 raises
  \<^verbatim>\<open>ValueError\<close>; the handler of line 245 then starts fresh.
\<close>

definition merge_by_url :: "'a orig_row list \<Rightarrow> 'a frame \<Rightarrow> 'a frame option" where
  "merge_by_url original_df prev =
     (if has_status prev then
        (if has_detail prev then
           (if merge_raises (map o_url original_df) (map url_cell (rows prev)) then None
            else Some \<lparr>has_url = True, has_status = True, has_detail = True,
                       rows = merge_left original_df (rows prev)\<rparr>)
         else None)
      else
        (if merge_raises (map o_url original_df) (map url_cell (rows prev)) then None
         else Some \<lparr>has_url = True, has_status = True, has_detail = True,
                    rows = map clear_status (merge_left original_df (rows prev))\<rparr>))"

text \<open>Lines 213 to 254: the working frame \<^verbatim>\<open>df\<close>.\<close>

definition working_frame :: "'a orig_row list \<Rightarrow> 'a prev_csv \<Rightarrow> 'a frame" where
  "working_frame original_df out =
     (case out of
        NoFile \<Rightarrow> start_fresh original_df
      | Unreadable \<Rightarrow> start_fresh original_df
      | Parsed prev \<Rightarrow>
          if has_url prev then
            if length (rows prev) = length original_df then prev
            else (case merge_by_url original_df prev of
                    None \<Rightarrow> start_fresh original_df
                  | Some merged \<Rightarrow> merged)
          else start_fresh original_df)"

text \<open>Lines 257 to 258.\<close>

definition is_unprocessed :: "cell \<Rightarrow> bool" where
  "is_unprocessed val = (case val of NaN \<Rightarrow> True | Str s \<Rightarrow> strip s = '''')"

text \<open>
  Line 261: the index of the first row whose status is unprocessed, \<open>None\<close> for
  \<^verbatim>\<open>StopIteration\<close>. (\<^verbatim>\<open>df["status"]\<close> raises \<^verbatim>\<open>KeyError\<close> when the column is missing; that is
  handled where \<open>main\<close> calls this.)
\<close>

fun first_from :: "nat \<Rightarrow> cell list \<Rightarrow> nat option" where
  "first_from i [] = None"
| "first_from i (v # vs) = (if is_unprocessed v then Some i else first_from (Suc i) vs)"

definition first_unprocessed :: "'a frame \<Rightarrow> nat option" where
  "first_unprocessed df = first_from 0 (map status (rows df))"

section \<open>Configuration (lines 59 to 69)\<close>

definition SELENIUM_PAGE_LOAD_TIMEOUT :: real where "SELENIUM_PAGE_LOAD_TIMEOUT = 30"
definition SELENIUM_WAIT_SHORT :: int where "SELENIUM_WAIT_SHORT = 10"
definition SELENIUM_WAIT_LONG :: real where "SELENIUM_WAIT_LONG = 45"
definition SELENIUM_MAX_WAIT_PER_URL :: real where "SELENIUM_MAX_WAIT_PER_URL = 70"
definition BODY_MIN_LENGTH :: nat where "BODY_MIN_LENGTH = 20"
definition AUTOSAVE_EVERY :: nat where "AUTOSAVE_EVERY = 1"

section \<open>The verifier\<close>

subsection \<open>Formatting\<close>

text \<open>\<^verbatim>\<open>str\<close> of a natural number (the \<^verbatim>\<open>{body_len}\<close> of an f-string) and of a Boolean.\<close>

fun digits :: "nat \<Rightarrow> nat \<Rightarrow> string" where
  "digits 0 n = []"
| "digits (Suc fuel) n =
     (if n < 10 then [''0123456789'' ! n]
      else digits fuel (n div 10) @ [''0123456789'' ! (n mod 10)])"

definition str_nat :: "nat \<Rightarrow> string" where
  "str_nat n = digits (Suc n) n"

definition str_bool :: "bool \<Rightarrow> string" where
  "str_bool b = (if b then ''True'' else ''False'')"

text \<open>Python's \<^verbatim>\<open>int(x)\<close> on a float: truncation towards zero.\<close>

definition py_int :: "real \<Rightarrow> int" where
  "py_int x = (if 0 \<le> x then \<lfloor>x\<rfloor> else \<lceil>x\<rceil>)"

subsection \<open>The probe (\<^verbatim>\<open>try_requests_head_or_get\<close>, lines 117 to 124)\<close>

text \<open>What \<^verbatim>\<open>requests.get\<close> does: it raises (with the exception's text) or returns a status code.\<close>

datatype response = RequestRaised string | StatusCode int

definition try_requests_head_or_get :: "(string \<Rightarrow> response) \<Rightarrow> string \<Rightarrow> bool \<times> (string + int)" where
  "try_requests_head_or_get requests_get url =
     (case requests_get url of
        StatusCode c \<Rightarrow> (True, Inr c)
      | RequestRaised e \<Rightarrow> (False, Inl e))"

subsection \<open>The renderer\<close>

text \<open>
  What the browser does on \<^verbatim>\<open>driver.get(url)\<close>: the page loads, or one of the exceptions
  lines 164 to 172 distinguish is raised (with its text).
\<close>

datatype get_event =
  Loaded
| GetTimeout
| GetInvalidArgument string
| GetWebDriverError string
| GetOtherError string

text \<open>
  What happens inside \<^verbatim>\<open>wait_for_page_complete\<close>: both \<^verbatim>\<open>wait.until\<close> calls pass and the
  body length is measured, or an exception of one of the three handled kinds is raised.
\<close>

datatype wait_event =
  BodyLen nat
| WaitTimeout string
| WaitWebDriverError string
| WaitOtherError string

text \<open>
  The browser as the program sees it. \<open>navigate\<close> gives the outcome of \<^verbatim>\<open>driver.get(url)\<close>
  and the seconds it took; \<open>waits n t\<close> gives the outcome of the \<open>n\<close>-th readiness wait
  on the page (0 the short one, 1 the retry) when called with timeout \<open>t\<close>, and the
  seconds it took. Time passes only in these calls.
\<close>

record browser =
  navigate :: "string \<Rightarrow> get_event \<times> real"
  waits :: "nat \<Rightarrow> int \<Rightarrow> wait_event \<times> real"

text \<open>Lines 142 to 158, on the event the browser produced.\<close>

definition wait_for_page_complete :: "wait_event \<Rightarrow> bool \<times> string" where
  "wait_for_page_complete ev =
     (case ev of
        BodyLen body_len \<Rightarrow>
          if body_len \<ge> BODY_MIN_LENGTH then (True, ''ready; body_len='' @ str_nat body_len)
          else (True, ''ready_but_small_body; body_len='' @ str_nat body_len)
      | WaitTimeout te \<Rightarrow> (False, ''timeout_waiting:'' @ te)
      | WaitWebDriverError we \<Rightarrow> (False, ''webdriver_error:'' @ we)
      | WaitOtherError e \<Rightarrow> (False, ''other_error:'' @ e))"

text \<open>Lines 180 to 181: the timeout handed to the retry, from the seconds elapsed so far.\<close>

definition retry_timeout :: "real \<Rightarrow> int" where
  "retry_timeout elapsed =
     py_int (min SELENIUM_WAIT_LONG (SELENIUM_MAX_WAIT_PER_URL - elapsed))"

text \<open>
  \<^verbatim>\<open>check_with_selenium\<close>, lines 160 to 187. \<open>fmt\<close> is the \<^verbatim>\<open>{:.1f}\<close> formatting of a float;
  \<open>start_ts\<close> is the clock at entry, and the clock at exit is returned with the result.
\<close>

definition check_with_selenium ::
  "(real \<Rightarrow> string) \<Rightarrow> browser \<Rightarrow> string \<Rightarrow> real \<Rightarrow> (bool \<times> string) \<times> real" where
  "check_with_selenium fmt driver url start_ts =
     (let (g, dg) = navigate driver url; t0 = start_ts + dg in
      case g of
        GetInvalidArgument iae \<Rightarrow> ((False, ''invalid_url:'' @ iae), t0)
      | GetWebDriverError we \<Rightarrow> ((False, ''webdriver_get_error:'' @ we), t0)
      | GetOtherError e \<Rightarrow> ((False, ''get_exception:'' @ e), t0)
      | _ \<Rightarrow>
          let (w1, d1) = waits driver 0 SELENIUM_WAIT_SHORT;
              (ok, detail) = wait_for_page_complete w1;
              t1 = t0 + d1
          in if ok then
               ((True, ''short_wait_ok:'' @ detail @ ''; elapsed='' @ fmt (t1 - start_ts) @ ''s''), t1)
             else
               let elapsed = t1 - start_ts in
               if elapsed < SELENIUM_MAX_WAIT_PER_URL then
                 let (w2, d2) = waits driver 1 (retry_timeout elapsed);
                     (ok2, detail2) = wait_for_page_complete w2;
                     t2 = t1 + d2
                 in if ok2 then
                      ((True, ''long_wait_ok:'' @ detail2 @ ''; elapsed='' @ fmt (t2 - start_ts) @ ''s''), t2)
                    else
                      ((False, ''both_waits_failed: short_detail='' @ detail @ ''; long_detail='' @ detail2
                          @ ''; elapsed='' @ fmt (t2 - start_ts) @ ''s''), t2)
               else
                 ((False, ''short_wait_failed_and_no_time_for_long_wait; detail='' @ detail
                     @ ''; elapsed='' @ fmt elapsed @ ''s''), t1))"

subsection \<open>One row (\<^verbatim>\<open>main\<close>, lines 283 to 305)\<close>

text \<open>The calls that leave the process: the probe and the renderer, with the URL they are given.\<close>

datatype call = Probe string | Render string

text \<open>Line 284.\<close>

definition is_empty_url :: "string \<Rightarrow> bool" where
  "is_empty_url raw = (raw = [] \<or> lower raw \<in> set [''nan'', ''none'', ''''])"

text \<open>Line 289.\<close>

definition effective_url :: "string \<Rightarrow> string" where
  "effective_url raw =
     (if prefix ''http://'' (lower raw) \<or> prefix ''https://'' (lower raw) then raw
      else ''http://'' @ raw)"

text \<open>
  Lines 283 to 305 for one cell of the URL column: the status and detail written to the
  row, the outside calls made in order, and the clock afterwards.
\<close>

definition verify_cell ::
  "(real \<Rightarrow> string) \<Rightarrow> (string \<Rightarrow> response) \<Rightarrow> browser \<Rightarrow> cell \<Rightarrow> real
     \<Rightarrow> (string \<times> string) \<times> call list \<times> real" where
  "verify_cell fmt requests_get driver c now =
     (let raw = strip (str c) in
      if is_empty_url raw then ((''invalid'', ''empty url''), [], now)
      else
        let url = effective_url raw;
            (ok_req, req_info) = try_requests_head_or_get requests_get url;
            req_ok_flag = (case req_info of Inr code \<Rightarrow> ok_req \<and> code < 400 | Inl e \<Rightarrow> False);
            ((selenium_ok, detail), now') = check_with_selenium fmt driver url now
        in if selenium_ok then
             ((''valid'', ''selenium:'' @ detail @ ''; requests_ok:'' @ str_bool req_ok_flag),
              [Probe url, Render url], now')
           else
             ((''invalid'', ''selenium_error:'' @ detail @ ''; requests_ok:'' @ str_bool req_ok_flag),
              [Probe url, Render url], now'))"

section \<open>Persistence\<close>

text \<open>
  A path is a directory and a file name in it, so that \<^verbatim>\<open>os.path.dirname\<close> is the first
  component and appending a suffix without a separator changes only the second.
\<close>

record path =
  folder :: string
  leaf :: string

definition dirname :: "path \<Rightarrow> string" where
  "dirname p = folder p"

text \<open>Lines 54 to 56.\<close>

definition OUTPUT_CSV :: path where
  "OUTPUT_CSV = \<lparr>folder = ''D:/Education - Valid Url'', leaf = ''IRINS_Dashboard_with_status.csv''\<rparr>"

definition OUTPUT_XLSX :: path where
  "OUTPUT_XLSX = \<lparr>folder = ''D:/Education - Valid Url'', leaf = ''IRINS_Dashboard_with_status.xlsx''\<rparr>"

definition CHECKPOINT_JSON :: path where
  "CHECKPOINT_JSON = \<lparr>folder = ''D:/Education - Valid Url'', leaf = ''IRINS_Dashboard_checkpoint.json''\<rparr>"

text \<open>The checkpoint record: the dictionary \<^verbatim>\<open>meta\<close> with its one key the program sets.\<close>

record meta =
  last_processed_index :: "nat option"

text \<open>
  A file on disk is complete, or torn: created or opened for writing and not yet written
  to the end. What a complete file holds is the value that was serialised into it.
\<close>

datatype 'a content = Csv "'a frame" | Xlsx "'a frame" | Json meta

datatype 'c stored = Torn | Whole 'c

type_synonym 'a fs = "path \<Rightarrow> 'a content stored option"

text \<open>Whether a library call that writes returns or raises.\<close>

datatype io = Succeeds | Raises

text \<open>
  What the file system does during one save: the random part of the name \<^verbatim>\<open>mkstemp\<close>
  chooses, and for each writing call whether it raises.
\<close>

record save_io =
  tmp_rnd :: string
  to_csv_io :: io
  replace_csv_io :: io
  to_excel_io :: io
  json_dump_io :: io
  replace_json_io :: io

text \<open>\<^verbatim>\<open>tempfile.mkstemp(dir=dirn, suffix=".tmp")\<close> names the file it creates \<^verbatim>\<open>tmp<random>.tmp\<close>.\<close>

definition mkstemp :: "string \<Rightarrow> string \<Rightarrow> string \<Rightarrow> path" where
  "mkstemp dir sfx rnd = \<lparr>folder = dir, leaf = ''tmp'' @ rnd @ sfx\<rparr>"

text \<open>\<^verbatim>\<open>os.replace(src, dst)\<close>: in one step \<open>dst\<close> names what \<open>src\<close> named and \<open>src\<close> is gone.\<close>

definition os_replace :: "path \<Rightarrow> path \<Rightarrow> 'a fs \<Rightarrow> 'a fs" where
  "os_replace src dst fs = (fs(dst := fs src))(src := None)"

text \<open>
  \<^verbatim>\<open>atomic_write_csv\<close>, lines 75 to 90: every state of the disk the call passes through,
  in order, the last one being the state it leaves. \<^verbatim>\<open>mkstemp\<close> creates the temporary
  file, \<^verbatim>\<open>to_csv\<close> fills it, \<^verbatim>\<open>os.replace\<close> installs it; the \<^verbatim>\<open>finally\<close> clause removes a
  temporary file that is still there.
\<close>

definition atomic_write_csv_tmp :: "save_io \<Rightarrow> path \<Rightarrow> path" where
  "atomic_write_csv_tmp io path =
     (let dirn = (if dirname path = '''' then ''.'' else dirname path)
      in mkstemp dirn ''.tmp'' (tmp_rnd io))"

definition atomic_write_csv_steps :: "save_io \<Rightarrow> 'a frame \<Rightarrow> path \<Rightarrow> 'a fs \<Rightarrow> 'a fs list" where
  "atomic_write_csv_steps io df path fs =
     (let tmp = atomic_write_csv_tmp io path;
          created = fs(tmp \<mapsto> Torn)
      in case to_csv_io io of
           Raises \<Rightarrow> [fs, created, created(tmp := None)]
         | Succeeds \<Rightarrow>
             let written = created(tmp \<mapsto> Whole (Csv df)) in
             (case replace_csv_io io of
                Raises \<Rightarrow> [fs, created, written, written(tmp := None)]
              | Succeeds \<Rightarrow> [fs, created, written, os_replace tmp path written]))"

definition atomic_write_csv :: "save_io \<Rightarrow> 'a frame \<Rightarrow> path \<Rightarrow> 'a fs \<Rightarrow> 'a fs \<times> io" where
  "atomic_write_csv io df path fs =
     (last (atomic_write_csv_steps io df path fs),
      if to_csv_io io = Raises \<or> replace_csv_io io = Raises then Raises else Succeeds)"

text \<open>
  \<^verbatim>\<open>save_checkpoint_meta\<close>, lines 92 to 96, in the same way. An exception leaves the
  temporary file behind.
\<close>

definition save_checkpoint_meta_tmp :: "path \<Rightarrow> path" where
  "save_checkpoint_meta_tmp path = path\<lparr>leaf := leaf path @ ''.tmp''\<rparr>"

definition save_checkpoint_meta_steps :: "save_io \<Rightarrow> meta \<Rightarrow> path \<Rightarrow> 'a fs \<Rightarrow> 'a fs list" where
  "save_checkpoint_meta_steps io m path fs =
     (let tmp = save_checkpoint_meta_tmp path;
          opened = fs(tmp \<mapsto> Torn)
      in case json_dump_io io of
           Raises \<Rightarrow> [fs, opened]
         | Succeeds \<Rightarrow>
             let written = opened(tmp \<mapsto> Whole (Json m)) in
             (case replace_json_io io of
                Raises \<Rightarrow> [fs, opened, written]
              | Succeeds \<Rightarrow> [fs, opened, written, os_replace tmp path written]))"

definition save_checkpoint_meta :: "save_io \<Rightarrow> meta \<Rightarrow> path \<Rightarrow> 'a fs \<Rightarrow> 'a fs \<times> io" where
  "save_checkpoint_meta io m path fs =
     (last (save_checkpoint_meta_steps io m path fs),
      if json_dump_io io = Raises \<or> replace_json_io io = Raises then Raises else Succeeds)"

text \<open>\<^verbatim>\<open>df.to_excel(OUTPUT_XLSX, index=False)\<close> writes the target in place.\<close>

definition to_excel :: "save_io \<Rightarrow> 'a frame \<Rightarrow> path \<Rightarrow> 'a fs \<Rightarrow> 'a fs \<times> io" where
  "to_excel io df path fs =
     (case to_excel_io io of
        Raises \<Rightarrow> (fs(path \<mapsto> Torn), Raises)
      | Succeeds \<Rightarrow> (fs(path \<mapsto> Whole (Xlsx df)), Succeeds))"

section \<open>The driver (\<^verbatim>\<open>main\<close>, lines 191 to 340)\<close>

text \<open>What the run does that is visible from outside, in order.\<close>

datatype 'a event =
  Called call
| DriverStarted
| DriverQuit
| CsvWrite "'a frame"
| XlsxWrite "'a frame"
| MetaWrite meta

text \<open>
  Where a \<^verbatim>\<open>KeyboardInterrupt\<close> (which no \<^verbatim>\<open>except Exception\<close> clause catches) arrives in the
  iteration of a row: before the row's result is written, or during the save after it.
\<close>

datatype interrupt_point = WhileVerifying | WhileSaving

text \<open>Everything outside the program, by row index.\<close>

record world =
  requests_get :: "nat \<Rightarrow> string \<Rightarrow> response"
  chrome :: "nat \<Rightarrow> browser"
  interrupt :: "nat \<Rightarrow> interrupt_point option"
  autosave_io :: "nat \<Rightarrow> save_io"
  final_io :: save_io

text \<open>The variables of \<open>main\<close> that change, the disk, the clock and the events so far.\<close>

record 'a run =
  cur_df :: "'a frame"
  cur_meta :: meta
  processed_since_save :: nat
  disk :: "'a fs"
  clock :: real
  trace :: "'a event list"

datatype exit = Completed | Raised

text \<open>
  \<^verbatim>\<open>df.at[idx, "status"] = ...\<close> and \<^verbatim>\<open>df.at[idx, "status_detail"] = ...\<close>. Setting a cell of
  a column that does not exist creates the column, missing everywhere else. The loop
  only uses indices below the length of the frame.
\<close>

definition set_result :: "'a frame \<Rightarrow> nat \<Rightarrow> string \<Rightarrow> string \<Rightarrow> 'a frame" where
  "set_result df idx st det =
     (let rs = (if has_detail df then rows df else map (\<lambda>r. r\<lparr>status_detail := NaN\<rparr>) (rows df))
      in df\<lparr>has_detail := True,
             rows := rs[idx := (rs ! idx)\<lparr>status := Str st, status_detail := Str det\<rparr>]\<rparr>)"

text \<open>Lines 313 to 320: the save inside the loop; an exception of a write is caught.\<close>

definition checkpoint :: "save_io \<Rightarrow> 'a frame \<Rightarrow> meta \<Rightarrow> 'a fs \<Rightarrow> 'a fs \<times> 'a event list" where
  "checkpoint io df m fs =
     (case atomic_write_csv io df OUTPUT_CSV fs of
        (fs1, Raises) \<Rightarrow> (fs1, [CsvWrite df])
      | (fs1, Succeeds) \<Rightarrow>
          (fst (save_checkpoint_meta io m CHECKPOINT_JSON fs1), [CsvWrite df, MetaWrite m]))"

text \<open>Lines 283 to 321: the iteration for row \<open>idx\<close>.\<close>

definition loop_body :: "(real \<Rightarrow> string) \<Rightarrow> world \<Rightarrow> nat \<Rightarrow> 'a run \<Rightarrow> 'a run \<times> exit" where
  "loop_body fmt w idx s =
     (if interrupt w idx = Some WhileVerifying then (s, Raised)
      else
        let ((st, det), cs, now') =
              verify_cell fmt (requests_get w idx) (chrome w idx)
                (url_cell (rows (cur_df s) ! idx)) (clock s);
            df' = set_result (cur_df s) idx st det;
            m' = (cur_meta s)\<lparr>last_processed_index := Some idx\<rparr>;
            n = processed_since_save s + 1;
            s1 = s\<lparr>cur_df := df', cur_meta := m', processed_since_save := n,
                   clock := now', trace := trace s @ map Called cs\<rparr>
        in if n \<ge> AUTOSAVE_EVERY then
             if interrupt w idx = Some WhileSaving then
               (s1\<lparr>trace := trace s1 @ [CsvWrite df']\<rparr>, Raised)
             else
               let (fs', evs) = checkpoint (autosave_io w idx) df' m' (disk s1)
               in (s1\<lparr>disk := fs', processed_since_save := 0, trace := trace s1 @ evs\<rparr>, Completed)
           else (s1, Completed))"

text \<open>Line 282: the \<^verbatim>\<open>for\<close> loop over the indices, left at the first exception.\<close>

fun run_rows :: "(real \<Rightarrow> string) \<Rightarrow> world \<Rightarrow> nat list \<Rightarrow> 'a run \<Rightarrow> 'a run \<times> exit" where
  "run_rows fmt w [] s = (s, Completed)"
| "run_rows fmt w (idx # rest) s =
     (case loop_body fmt w idx s of
        (s', Raised) \<Rightarrow> (s', Raised)
      | (s', Completed) \<Rightarrow> run_rows fmt w rest s')"

text \<open>
  Lines 323 to 338, the \<^verbatim>\<open>finally\<close> clause: the driver is quit, then the table is written
  as CSV, as a spreadsheet, and the checkpoint record is written; the first write that
  raises ends the save (line 337).
\<close>

definition final_save :: "save_io \<Rightarrow> 'a frame \<Rightarrow> meta \<Rightarrow> 'a fs \<Rightarrow> 'a fs \<times> 'a event list" where
  "final_save io df m fs =
     (case atomic_write_csv io df OUTPUT_CSV fs of
        (fs1, Raises) \<Rightarrow> (fs1, [CsvWrite df])
      | (fs1, Succeeds) \<Rightarrow>
          (case to_excel io df OUTPUT_XLSX fs1 of
             (fs2, Raises) \<Rightarrow> (fs2, [CsvWrite df, XlsxWrite df])
           | (fs2, Succeeds) \<Rightarrow>
               (fst (save_checkpoint_meta io m CHECKPOINT_JSON fs2),
                [CsvWrite df, XlsxWrite df, MetaWrite m])))"

definition finally_block :: "save_io \<Rightarrow> 'a run \<Rightarrow> 'a run" where
  "finally_block io s =
     (let (fs', evs) = final_save io (cur_df s) (cur_meta s) (disk s)
      in s\<lparr>disk := fs', trace := trace s @ DriverQuit # evs\<rparr>)"

text \<open>How \<open>main\<close> ends: it returns, or an exception leaves it.\<close>

datatype ending = Returned | KeyError | Propagated

text \<open>
  \<open>main\<close> after the input is loaded and its URL column is found. \<open>out\<close> is what line 213
  to 215 find of a previous output, \<open>loaded\<close> what \<^verbatim>\<open>load_checkpoint_meta\<close> returns.
  \<^verbatim>\<open>FORCE_RESTART\<close> is \<^verbatim>\<open>False\<close>, so lines 207 to 211 do not run.
  Line 261 raises \<^verbatim>\<open>KeyError\<close> on a frame without a \<^verbatim>\<open>status\<close> column, outside any handler.
\<close>

definition main ::
  "(real \<Rightarrow> string) \<Rightarrow> world \<Rightarrow> 'a orig_row list \<Rightarrow> 'a prev_csv \<Rightarrow> meta option
     \<Rightarrow> 'a fs \<Rightarrow> real \<Rightarrow> 'a run \<times> ending" where
  "main fmt w original_df out loaded fs now =
     (let df = working_frame original_df out;
          s0 = \<lparr>cur_df = df, cur_meta = \<lparr>last_processed_index = None\<rparr>,
                processed_since_save = 0, disk = fs, clock = now, trace = []\<rparr>
      in if \<not> has_status df then (s0, KeyError)
         else
           case first_unprocessed df of
             None \<Rightarrow>
               (s0\<lparr>disk := fst (to_excel (final_io w) df OUTPUT_XLSX fs), trace := [XlsxWrite df]\<rparr>,
                Returned)
           | Some first \<Rightarrow>
               let s1 = s0\<lparr>cur_meta := (case loaded of None \<Rightarrow> \<lparr>last_processed_index = None\<rparr>
                                          | Some m \<Rightarrow> m),
                          trace := [DriverStarted]\<rparr>;
                   (s2, ex) = run_rows fmt w [first..<length (rows df)] s1
               in (finally_block (final_io w) s2,
                   case ex of Completed \<Rightarrow> Returned | Raised \<Rightarrow> Propagated))"

section \<open>The specification's reading of reconciliation\<close>

text \<open>
  The specification describes the merge by URL row by row: an original row whose URL is
  recorded in the previous output carries that row's status and detail over, any other
  original row is unresolved. This definition follows those words, to be compared with
  \<open>merge_left\<close>, which follows the code.
\<close>

definition reconcile_by_url_spec :: "'a orig_row list \<Rightarrow> 'a row list \<Rightarrow> 'a row list" where
  "reconcile_by_url_spec original prev =
     map (\<lambda>l. case find (\<lambda>p. url_cell p = o_url l) prev of
                 None \<Rightarrow> unmatched l
               | Some p \<Rightarrow> joined l p) original"

section \<open>Reconciliation: properties\<close>

lemma matching_filter: "matching k ps = filter (\<lambda>p. url_cell p = k) ps"
  by (induction ps) auto

lemma matching_set: "set (matching k ps) = {p \<in> set ps. url_cell p = k}"
  by (simp add: matching_filter)

lemma matching_distinct:
  "distinct (map url_cell ps) \<Longrightarrow>
   matching k ps = (case find (\<lambda>p. url_cell p = k) ps of None \<Rightarrow> [] | Some p \<Rightarrow> [p])"
proof (induction ps)
  case Nil
  then show ?case by simp
next
  case (Cons p ps)
  show ?case
  proof (cases "url_cell p = k")
    case True
    with Cons.prems have "k \<notin> url_cell ` set ps" by auto
    then have "matching k ps = []" by (auto simp: matching_filter filter_empty_conv)
    with True show ?thesis by simp
  next
    case False
    with Cons show ?thesis by simp
  qed
qed

lemma merge_left_distinct:
  "distinct (map url_cell prev) \<Longrightarrow> merge_left original prev = reconcile_by_url_spec original prev"
  by (induction original) (auto simp: reconcile_by_url_spec_def matching_distinct split: option.splits)

lemma merge_left_rows_from:
  "r \<in> set (merge_left original prev) \<Longrightarrow>
   \<exists>l \<in> set original. url_cell r = o_url l \<and> other r = o_other l \<and>
     (if o_url l \<in> url_cell ` set prev
      then \<exists>p \<in> set prev. url_cell p = o_url l \<and> status r = status p \<and> status_detail r = status_detail p
      else status r = NaN \<and> status_detail r = NaN)"
proof (induction original)
  case Nil
  then show ?case by simp
next
  case (Cons l ls)
  from Cons.prems consider
    (here) "r \<in> set (case matching (o_url l) prev of [] \<Rightarrow> [unmatched l] | m # ms \<Rightarrow> map (joined l) (m # ms))"
  | (later) "r \<in> set (merge_left ls prev)" by auto
  then show ?case
  proof cases
    case here
    show ?thesis
    proof (cases "matching (o_url l) prev")
      case Nil
      then have "o_url l \<notin> url_cell ` set prev"
        by (auto simp: matching_filter filter_empty_conv)
      moreover from here Nil have "r = unmatched l" by simp
      ultimately have "url_cell r = o_url l \<and> other r = o_other l \<and>
        (if o_url l \<in> url_cell ` set prev
         then \<exists>p \<in> set prev. url_cell p = o_url l \<and> status r = status p \<and> status_detail r = status_detail p
         else status r = NaN \<and> status_detail r = NaN)" by (simp add: unmatched_def)
      then show ?thesis by (intro bexI[of _ l]) simp_all
    next
      case (Cons m ms)
      with here obtain p where p: "p \<in> set (matching (o_url l) prev)" "r = joined l p" by auto
      then have pp: "p \<in> set prev" "url_cell p = o_url l" by (auto simp: matching_set)
      then have "o_url l \<in> url_cell ` set prev" by force
      moreover have "url_cell r = o_url l" "other r = o_other l" "status r = status p"
        "status_detail r = status_detail p" using p by (simp_all add: joined_def)
      ultimately have "url_cell r = o_url l \<and> other r = o_other l \<and>
        (if o_url l \<in> url_cell ` set prev
         then \<exists>p \<in> set prev. url_cell p = o_url l \<and> status r = status p \<and> status_detail r = status_detail p
         else status r = NaN \<and> status_detail r = NaN)" using pp by auto
      then show ?thesis by (intro bexI[of _ l]) simp_all
    qed
  next
    case later
    with Cons.IH obtain l' where "l' \<in> set ls" "url_cell r = o_url l' \<and> other r = o_other l' \<and>
        (if o_url l' \<in> url_cell ` set prev
         then \<exists>p \<in> set prev. url_cell p = o_url l' \<and> status r = status p \<and> status_detail r = status_detail p
         else status r = NaN \<and> status_detail r = NaN)" by blast
    then show ?thesis by (intro bexI[of _ l']) simp_all
  qed
qed

lemma merge_left_keeps_all:
  "l \<in> set original \<Longrightarrow> \<exists>r \<in> set (merge_left original prev). url_cell r = o_url l \<and> other r = o_other l"
proof (induction original)
  case Nil
  then show ?case by simp
next
  case (Cons a ls)
  show ?case
  proof (cases "l = a")
    case True
    then show ?thesis by (cases "matching (o_url a) prev") (auto simp: unmatched_def joined_def)
  next
    case False
    with Cons show ?thesis by auto
  qed
qed

lemma merge_left_length_distinct:
  "distinct (map url_cell prev) \<Longrightarrow> length (merge_left original prev) = length original"
  by (simp add: merge_left_distinct reconcile_by_url_spec_def)

lemma merge_left_length_ge: "length original \<le> length (merge_left original prev)"
  by (induction original) (auto split: list.splits)

lemma column_dtype_text: "c \<noteq> NaN \<Longrightarrow> c \<in> set cs \<Longrightarrow> column_dtype cs = Object"
  by (auto simp: column_dtype_def list_all_iff)

lemma merge_raises_shared_text:
  "c \<noteq> NaN \<Longrightarrow> c \<in> set lk \<Longrightarrow> c \<in> set rk \<Longrightarrow> \<not> merge_raises lk rk"
  by (simp add: merge_raises_def column_dtype_text)

lemma working_frame_merge:
  "has_url prev \<Longrightarrow> has_status prev \<Longrightarrow> has_detail prev \<Longrightarrow>
   length (rows prev) \<noteq> length original_df \<Longrightarrow>
   \<not> merge_raises (map o_url original_df) (map url_cell (rows prev)) \<Longrightarrow>
   rows (working_frame original_df (Parsed prev)) = merge_left original_df (rows prev)"
  by (simp add: working_frame_def merge_by_url_def)

lemma working_frame_merge_raises:
  "has_url prev \<Longrightarrow> length (rows prev) \<noteq> length original_df \<Longrightarrow>
   merge_raises (map o_url original_df) (map url_cell (rows prev)) \<Longrightarrow>
   working_frame original_df (Parsed prev) = start_fresh original_df"
  by (simp add: working_frame_def merge_by_url_def)

lemma first_from_None: "first_from i vs = None \<longleftrightarrow> (\<forall>v \<in> set vs. \<not> is_unprocessed v)"
  by (induction vs arbitrary: i) auto

lemma first_from_hd: "vs \<noteq> [] \<Longrightarrow> is_unprocessed (hd vs) \<Longrightarrow> first_from i vs = Some i"
  by (cases vs) auto

lemma is_unprocessed_empty: "is_unprocessed (Str '''')" "is_unprocessed NaN"
  by (simp_all add: is_unprocessed_def strip_def)

text \<open>
  C2. When a previous output with the URL column and both status columns has a row count
  different from the input's, every row of the working table comes from an original row
  (same URL, same other fields). If the original row's URL is recorded in the previous
  output, the row carries the status and detail of a previous row with that URL; this
  holds for every URL text, and for a missing URL unless the merge raised on the column
  types. Otherwise the row is unresolved (status missing or empty). Every original row
  is represented, and no URL that the input lacks appears. When the URLs of the previous
  output are pairwise different the table is exactly the row-by-row table of the
  specification, or the fresh table when the merge raised.
\<close>

theorem merge_by_url_carries_status:
  assumes "has_url prev" and "has_status prev" and "has_detail prev"
    and "length (rows prev) \<noteq> length original_df"
  shows "(\<forall>r \<in> set (rows (working_frame original_df (Parsed prev))).
            \<exists>l \<in> set original_df. url_cell r = o_url l \<and> other r = o_other l \<and>
              (if o_url l \<in> url_cell ` set (rows prev)
                  \<and> (o_url l \<noteq> NaN
                      \<or> \<not> merge_raises (map o_url original_df) (map url_cell (rows prev)))
               then \<exists>p \<in> set (rows prev). url_cell p = o_url l \<and> status r = status p
                      \<and> status_detail r = status_detail p
               else is_unprocessed (status r)
                    \<and> (status r = NaN \<and> status_detail r = NaN
                        \<or> status r = Str '''' \<and> status_detail r = Str '''')))
       \<and> (\<forall>l \<in> set original_df.
            \<exists>r \<in> set (rows (working_frame original_df (Parsed prev))).
              url_cell r = o_url l \<and> other r = o_other l)
       \<and> url_cell ` set (rows (working_frame original_df (Parsed prev))) \<subseteq> o_url ` set original_df
       \<and> (distinct (map url_cell (rows prev)) \<longrightarrow>
            rows (working_frame original_df (Parsed prev))
              = (if merge_raises (map o_url original_df) (map url_cell (rows prev))
                 then map fresh_row original_df
                 else reconcile_by_url_spec original_df (rows prev)))"
proof (cases "merge_raises (map o_url original_df) (map url_cell (rows prev))")
  case False
  have eq: "rows (working_frame original_df (Parsed prev)) = merge_left original_df (rows prev)"
    using assms False by (rule working_frame_merge)
  have a: "\<forall>r \<in> set (merge_left original_df (rows prev)).
            \<exists>l \<in> set original_df. url_cell r = o_url l \<and> other r = o_other l \<and>
              (if o_url l \<in> url_cell ` set (rows prev)
                  \<and> (o_url l \<noteq> NaN
                      \<or> \<not> merge_raises (map o_url original_df) (map url_cell (rows prev)))
               then \<exists>p \<in> set (rows prev). url_cell p = o_url l \<and> status r = status p
                      \<and> status_detail r = status_detail p
               else is_unprocessed (status r)
                    \<and> (status r = NaN \<and> status_detail r = NaN
                        \<or> status r = Str '''' \<and> status_detail r = Str ''''))"
  proof
    fix r assume "r \<in> set (merge_left original_df (rows prev))"
    from merge_left_rows_from[OF this] obtain l where l: "l \<in> set original_df"
      "url_cell r = o_url l" "other r = o_other l"
      "if o_url l \<in> url_cell ` set (rows prev)
       then \<exists>p \<in> set (rows prev). url_cell p = o_url l \<and> status r = status p
              \<and> status_detail r = status_detail p
       else status r = NaN \<and> status_detail r = NaN" by blast
    with False have "url_cell r = o_url l \<and> other r = o_other l \<and>
              (if o_url l \<in> url_cell ` set (rows prev)
                  \<and> (o_url l \<noteq> NaN
                      \<or> \<not> merge_raises (map o_url original_df) (map url_cell (rows prev)))
               then \<exists>p \<in> set (rows prev). url_cell p = o_url l \<and> status r = status p
                      \<and> status_detail r = status_detail p
               else is_unprocessed (status r)
                    \<and> (status r = NaN \<and> status_detail r = NaN
                        \<or> status r = Str '''' \<and> status_detail r = Str ''''))"
      by (simp add: is_unprocessed_empty split: if_splits)
    with l(1) show "\<exists>l \<in> set original_df. url_cell r = o_url l \<and> other r = o_other l \<and>
              (if o_url l \<in> url_cell ` set (rows prev)
                  \<and> (o_url l \<noteq> NaN
                      \<or> \<not> merge_raises (map o_url original_df) (map url_cell (rows prev)))
               then \<exists>p \<in> set (rows prev). url_cell p = o_url l \<and> status r = status p
                      \<and> status_detail r = status_detail p
               else is_unprocessed (status r)
                    \<and> (status r = NaN \<and> status_detail r = NaN
                        \<or> status r = Str '''' \<and> status_detail r = Str ''''))"
      by (rule rev_bexI)
  qed
  have b: "\<forall>l \<in> set original_df. \<exists>r \<in> set (merge_left original_df (rows prev)).
             url_cell r = o_url l \<and> other r = o_other l"
    using merge_left_keeps_all by fast
  have c: "url_cell ` set (merge_left original_df (rows prev)) \<subseteq> o_url ` set original_df"
  proof
    fix u assume "u \<in> url_cell ` set (merge_left original_df (rows prev))"
    then obtain r where r: "r \<in> set (merge_left original_df (rows prev))" "u = url_cell r" by auto
    from merge_left_rows_from[OF r(1)] obtain l where "l \<in> set original_df" "url_cell r = o_url l"
      by blast
    with r show "u \<in> o_url ` set original_df" by auto
  qed
  have d: "distinct (map url_cell (rows prev)) \<longrightarrow>
             merge_left original_df (rows prev)
              = (if merge_raises (map o_url original_df) (map url_cell (rows prev))
                 then map fresh_row original_df
                 else reconcile_by_url_spec original_df (rows prev))"
    using False by (simp add: merge_left_distinct)
  from a b c d show ?thesis unfolding eq by blast
next
  case True
  have wf: "working_frame original_df (Parsed prev) = start_fresh original_df"
    using assms(1,4) True by (rule working_frame_merge_raises)
  have eq: "rows (working_frame original_df (Parsed prev)) = map fresh_row original_df"
    unfolding wf by (simp add: start_fresh_def)
  have a: "\<forall>r \<in> set (map fresh_row original_df).
            \<exists>l \<in> set original_df. url_cell r = o_url l \<and> other r = o_other l \<and>
              (if o_url l \<in> url_cell ` set (rows prev)
                  \<and> (o_url l \<noteq> NaN
                      \<or> \<not> merge_raises (map o_url original_df) (map url_cell (rows prev)))
               then \<exists>p \<in> set (rows prev). url_cell p = o_url l \<and> status r = status p
                      \<and> status_detail r = status_detail p
               else is_unprocessed (status r)
                    \<and> (status r = NaN \<and> status_detail r = NaN
                        \<or> status r = Str '''' \<and> status_detail r = Str ''''))"
  proof
    fix r assume "r \<in> set (map fresh_row original_df)"
    then obtain l where l: "l \<in> set original_df" "r = fresh_row l" by auto
    have no: "\<not> (o_url l \<in> url_cell ` set (rows prev) \<and> o_url l \<noteq> NaN)"
    proof
      assume h: "o_url l \<in> url_cell ` set (rows prev) \<and> o_url l \<noteq> NaN"
      have "o_url l \<in> set (map o_url original_df)" using l(1) by simp
      moreover have "o_url l \<in> set (map url_cell (rows prev))" using h by simp
      ultimately have "\<not> merge_raises (map o_url original_df) (map url_cell (rows prev))"
        using h merge_raises_shared_text by blast
      with True show False by simp
    qed
    have "url_cell r = o_url l \<and> other r = o_other l \<and>
              (if o_url l \<in> url_cell ` set (rows prev)
                  \<and> (o_url l \<noteq> NaN
                      \<or> \<not> merge_raises (map o_url original_df) (map url_cell (rows prev)))
               then \<exists>p \<in> set (rows prev). url_cell p = o_url l \<and> status r = status p
                      \<and> status_detail r = status_detail p
               else is_unprocessed (status r)
                    \<and> (status r = NaN \<and> status_detail r = NaN
                        \<or> status r = Str '''' \<and> status_detail r = Str ''''))"
      using no True l(2) by (auto simp: fresh_row_def is_unprocessed_empty)
    with l(1) show "\<exists>l \<in> set original_df. url_cell r = o_url l \<and> other r = o_other l \<and>
              (if o_url l \<in> url_cell ` set (rows prev)
                  \<and> (o_url l \<noteq> NaN
                      \<or> \<not> merge_raises (map o_url original_df) (map url_cell (rows prev)))
               then \<exists>p \<in> set (rows prev). url_cell p = o_url l \<and> status r = status p
                      \<and> status_detail r = status_detail p
               else is_unprocessed (status r)
                    \<and> (status r = NaN \<and> status_detail r = NaN
                        \<or> status r = Str '''' \<and> status_detail r = Str ''''))"
      by (rule rev_bexI)
  qed
  have b: "\<forall>l \<in> set original_df. \<exists>r \<in> set (map fresh_row original_df).
             url_cell r = o_url l \<and> other r = o_other l"
    by (auto simp: fresh_row_def)
  have c: "url_cell ` set (map fresh_row original_df) \<subseteq> o_url ` set original_df"
    by (auto simp: fresh_row_def)
  have d: "distinct (map url_cell (rows prev)) \<longrightarrow>
             map fresh_row original_df
              = (if merge_raises (map o_url original_df) (map url_cell (rows prev))
                 then map fresh_row original_df
                 else reconcile_by_url_spec original_df (rows prev))"
    using True by simp
  from a b c d show ?thesis unfolding eq by blast
qed

text \<open>
  The example of the specification: original rows A, B, C and a previous output with A
  and C, both valid, give A valid, B unresolved, C valid.
\<close>

theorem merge_by_url_carries_status_witness:
  "rows (working_frame
      [\<lparr>o_url = Str ''http://a.example'', o_other = ()\<rparr>,
       \<lparr>o_url = Str ''http://b.example'', o_other = ()\<rparr>,
       \<lparr>o_url = Str ''http://c.example'', o_other = ()\<rparr>]
      (Parsed \<lparr>has_url = True, has_status = True, has_detail = True,
         rows = [\<lparr>url_cell = Str ''http://a.example'', other = (), status = Str ''valid'',
                  status_detail = Str ''da''\<rparr>,
                 \<lparr>url_cell = Str ''http://c.example'', other = (), status = Str ''valid'',
                  status_detail = Str ''dc''\<rparr>]\<rparr>))
   = [\<lparr>url_cell = Str ''http://a.example'', other = (), status = Str ''valid'', status_detail = Str ''da''\<rparr>,
      \<lparr>url_cell = Str ''http://b.example'', other = (), status = NaN, status_detail = NaN\<rparr>,
      \<lparr>url_cell = Str ''http://c.example'', other = (), status = Str ''valid'', status_detail = Str ''dc''\<rparr>]"
proof -
  define prev :: "unit frame" where "prev = \<lparr>has_url = True, has_status = True, has_detail = True,
         rows = [\<lparr>url_cell = Str ''http://a.example'', other = (), status = Str ''valid'',
                  status_detail = Str ''da''\<rparr>,
                 \<lparr>url_cell = Str ''http://c.example'', other = (), status = Str ''valid'',
                  status_detail = Str ''dc''\<rparr>]\<rparr>"
  define orig :: "unit orig_row list" where "orig =
        [\<lparr>o_url = Str ''http://a.example'', o_other = ()\<rparr>,
         \<lparr>o_url = Str ''http://b.example'', o_other = ()\<rparr>,
         \<lparr>o_url = Str ''http://c.example'', o_other = ()\<rparr>]"
  have h: "has_url prev" "has_status prev" "has_detail prev" "length (rows prev) \<noteq> length orig"
    by (simp_all add: prev_def orig_def)
  have d: "distinct (map url_cell (rows prev))" by (simp add: prev_def)
  have nr: "\<not> merge_raises (map o_url orig) (map url_cell (rows prev))"
    by (simp add: merge_raises_def column_dtype_def prev_def orig_def)
  note t = merge_by_url_carries_status[OF h]
  from t[THEN conjunct2, THEN conjunct2, THEN conjunct2] d nr
  have "rows (working_frame orig (Parsed prev)) = reconcile_by_url_spec orig (rows prev)"
    by simp
  then show ?thesis
    unfolding prev_def orig_def
    by (simp add: reconcile_by_url_spec_def unmatched_def joined_def)
qed

text \<open>
  C7. The claim is that the merged table always has as many rows as the input. The left
  join repeats an original row once for every previous row with the same URL: one
  original row and a previous output holding its URL twice give a working table of two
  rows.
\<close>

theorem merge_duplicates_rows:
  "length (rows (working_frame
      [\<lparr>o_url = Str ''http://a.example'', o_other = ()\<rparr>]
      (Parsed \<lparr>has_url = True, has_status = True, has_detail = True,
         rows = [\<lparr>url_cell = Str ''http://a.example'', other = (), status = Str ''valid'',
                  status_detail = Str ''d1''\<rparr>,
                 \<lparr>url_cell = Str ''http://a.example'', other = (), status = Str ''invalid'',
                  status_detail = Str ''d2''\<rparr>]\<rparr>))) = 2
   \<and> length [\<lparr>o_url = Str ''http://a.example'', o_other = ()\<rparr>] = 1"
  by (simp add: working_frame_def merge_by_url_def merge_raises_def column_dtype_def joined_def)

text \<open>
  C10. A previous output that cannot be parsed, or that lacks the detected URL column,
  is ignored: the working table is the input with both status columns empty, so every
  status is the empty string, the first unprocessed row is row 0 (when there is a row),
  and the start-up raises no error.
\<close>

theorem unusable_previous_output_ignored:
  assumes "out = Unreadable \<or> (\<exists>prev. out = Parsed prev \<and> \<not> has_url prev)"
  shows "working_frame original_df out = start_fresh original_df
       \<and> map status (rows (working_frame original_df out))
           = replicate (length original_df) (Str '''')
       \<and> map o_url original_df = map url_cell (rows (working_frame original_df out))
       \<and> first_unprocessed (working_frame original_df out)
           = (if original_df = [] then None else Some 0)
       \<and> snd (main fmt w original_df out loaded fs now) \<noteq> KeyError"
proof -
  have wf: "working_frame original_df out = start_fresh original_df"
    using assms by (auto simp: working_frame_def)
  have st: "map status (rows (start_fresh original_df)) = replicate (length original_df) (Str '''')"
    by (induction original_df) (simp_all add: start_fresh_def fresh_row_def)
  have urls: "map o_url original_df = map url_cell (rows (start_fresh original_df))"
    by (simp add: start_fresh_def fresh_row_def comp_def)
  have fu: "first_unprocessed (start_fresh original_df) = (if original_df = [] then None else Some 0)"
  proof (cases original_df)
    case Nil
    then show ?thesis by (simp add: first_unprocessed_def start_fresh_def)
  next
    case (Cons a as)
    then show ?thesis
      by (simp add: first_unprocessed_def start_fresh_def fresh_row_def is_unprocessed_empty)
  qed
  have hs: "has_status (start_fresh original_df)" by (simp add: start_fresh_def)
  have "snd (main fmt w original_df out loaded fs now) \<noteq> KeyError"
    unfolding main_def wf using hs
    by (simp add: Let_def split: option.splits prod.splits exit.splits)
  with wf st urls fu show ?thesis by simp
qed

theorem unusable_previous_output_ignored_witness:
  "(Parsed \<lparr>has_url = False, has_status = True, has_detail = True, rows = []\<rparr> = (Unreadable :: unit prev_csv)
      \<or> (\<exists>prev. Parsed \<lparr>has_url = False, has_status = True, has_detail = True, rows = []\<rparr>
              = (Parsed prev :: unit prev_csv) \<and> \<not> has_url prev))
   \<and> first_unprocessed (working_frame [\<lparr>o_url = Str ''a.example'', o_other = ()\<rparr>]
      (Parsed \<lparr>has_url = False, has_status = True, has_detail = True, rows = []\<rparr>)) = Some 0
   \<and> map status (rows (working_frame [\<lparr>o_url = Str ''a.example'', o_other = ()\<rparr>]
      (Parsed \<lparr>has_url = False, has_status = True, has_detail = True, rows = []\<rparr>))) = [Str '''']"
proof -
  have h: "Parsed \<lparr>has_url = False, has_status = True, has_detail = True, rows = []\<rparr> = (Unreadable :: unit prev_csv)
      \<or> (\<exists>prev. Parsed \<lparr>has_url = False, has_status = True, has_detail = True, rows = []\<rparr>
              = (Parsed prev :: unit prev_csv) \<and> \<not> has_url prev)"
    by simp
  note t = unusable_previous_output_ignored [OF h, of "[\<lparr>o_url = Str ''a.example'', o_other = ()\<rparr>]"]
  from t[THEN conjunct2, THEN conjunct1]
  have a: "map status (rows (working_frame [\<lparr>o_url = Str ''a.example'', o_other = ()\<rparr>]
      (Parsed \<lparr>has_url = False, has_status = True, has_detail = True, rows = []\<rparr>))) = [Str '''']"
    by simp
  from t[THEN conjunct2, THEN conjunct2, THEN conjunct2, THEN conjunct1]
  have b: "first_unprocessed (working_frame [\<lparr>o_url = Str ''a.example'', o_other = ()\<rparr>]
      (Parsed \<lparr>has_url = False, has_status = True, has_detail = True, rows = []\<rparr>)) = Some 0"
    by simp
  from h a b show ?thesis by blast
qed

section \<open>The verifier: properties\<close>

lemma isspace_cases:
  "isspace c \<Longrightarrow> c = CHR 0x09 \<or> c = CHR 0x0A \<or> c = CHR 0x0B \<or> c = CHR 0x0C \<or> c = CHR 0x0D \<or> c = CHR 0x1C
     \<or> c = CHR 0x1D \<or> c = CHR 0x1E \<or> c = CHR 0x1F \<or> c = CHR 0x20 \<or> c = CHR 0x85 \<or> c = CHR 0xA0"
  by (simp add: isspace_def)

lemma isspace_lower_char: "isspace c \<Longrightarrow> lower_char c = c"
  by (drule isspace_cases, elim disjE; simp add: lower_char_def)

lemma lower_no_space: "\<not> isspace (lower_char c) \<Longrightarrow> \<not> isspace c"
  using isspace_lower_char by force

lemma strip_id: "s = [] \<or> (\<not> isspace (hd s) \<and> \<not> isspace (last s)) \<Longrightarrow> strip s = s"
proof (cases s rule: rev_cases)
  case Nil
  then show ?thesis by (simp add: strip_def)
next
  case (snoc b l)
  assume "s = [] \<or> (\<not> isspace (hd s) \<and> \<not> isspace (last s))"
  with snoc have h: "\<not> isspace (hd s)" and l: "\<not> isspace l" by auto
  from snoc have "s \<noteq> []" by simp
  with h have 1: "dropWhile isspace s = s" by (cases s) simp_all
  from snoc l have "dropWhile isspace (rev s) = rev s" by simp
  with 1 show ?thesis by (simp add: strip_def)
qed

lemma not_space_n_e: "\<not> isspace CHR ''n''" "\<not> isspace CHR ''e''"
  by (simp_all add: isspace_def)

lemma placeholder_strip:
  assumes "lower s \<in> {'''', ''nan'', ''none''}"
  shows "strip s = s"
proof -
  from assms consider "s = []" | "lower s = ''nan''" | "lower s = ''none''"
    by (auto simp: lower_def)
  then show ?thesis
  proof cases
    case 1
    then show ?thesis by (simp add: strip_def)
  next
    case 2
    then obtain a b c where s: "s = [a, b, c]" "lower_char a = CHR ''n''" "lower_char c = CHR ''n''"
      by (auto simp: lower_def map_eq_Cons_conv)
    then have "\<not> isspace a" "\<not> isspace c" using lower_no_space not_space_n_e by metis+
    with s show ?thesis by (intro strip_id) simp
  next
    case 3
    then obtain a b c d where s: "s = [a, b, c, d]" "lower_char a = CHR ''n''" "lower_char d = CHR ''e''"
      by (auto simp: lower_def map_eq_Cons_conv)
    then have "\<not> isspace a" "\<not> isspace d" using lower_no_space not_space_n_e by metis+
    with s show ?thesis by (intro strip_id) simp
  qed
qed

lemma placeholder_empty:
  assumes "lower (str c) \<in> {'''', ''nan'', ''none''}"
  shows "verify_cell fmt net driver c now = ((''invalid'', ''empty url''), [], now)"
proof -
  have "strip (str c) = str c" using assms by (rule placeholder_strip)
  moreover have "is_empty_url (str c)" using assms by (auto simp: is_empty_url_def)
  ultimately show ?thesis by (simp add: verify_cell_def)
qed

lemma verify_cell_empty:
  "is_empty_url (strip (str c)) \<Longrightarrow>
   verify_cell fmt net driver c now = ((''invalid'', ''empty url''), [], now)"
  by (simp add: verify_cell_def)

lemma verify_cell_calls:
  "\<not> is_empty_url (strip (str c)) \<Longrightarrow>
   fst (snd (verify_cell fmt net driver c now)) =
     [Probe (effective_url (strip (str c))), Render (effective_url (strip (str c)))]"
  by (simp add: verify_cell_def Let_def split: prod.splits)

lemma effective_url_scheme:
  "prefix ''http://'' (lower (effective_url raw)) \<or> prefix ''https://'' (lower (effective_url raw))"
  by (simp add: effective_url_def lower_def lower_char_def)

lemma verify_cell_status:
  "fst (fst (verify_cell fmt net driver c now)) =
     (if is_empty_url (strip (str c)) then ''invalid''
      else if fst (fst (check_with_selenium fmt driver (effective_url (strip (str c))) now))
           then ''valid'' else ''invalid'')"
  by (simp add: verify_cell_def Let_def split: prod.splits)

text \<open>
  C5. For one row, two runs that differ only in what the probe returns (an exception, or
  any status code) and see the same browser give the same status, make the same outside
  calls and take the same time; the status is a function of the renderer's verdict
  alone. Only the detail text can differ.
\<close>

theorem status_independent_of_probe:
  "fst (fst (verify_cell fmt probe_a driver c now)) = fst (fst (verify_cell fmt probe_b driver c now))
   \<and> snd (verify_cell fmt probe_a driver c now) = snd (verify_cell fmt probe_b driver c now)
   \<and> fst (fst (verify_cell fmt probe_a driver c now)) =
        (if is_empty_url (strip (str c)) then ''invalid''
         else if fst (fst (check_with_selenium fmt driver (effective_url (strip (str c))) now))
              then ''valid'' else ''invalid'')"
proof -
  have "snd (verify_cell fmt probe_a driver c now) = snd (verify_cell fmt probe_b driver c now)"
    by (simp add: verify_cell_def Let_def split: prod.splits)
  then show ?thesis by (simp add: verify_cell_status)
qed

theorem status_independent_of_probe_witness:
  "fst (fst (verify_cell (\<lambda>t. ''0.0'') (\<lambda>u. RequestRaised ''refused'')
        \<lparr>navigate = (\<lambda>u. (Loaded, 2)), waits = (\<lambda>n t. (BodyLen 100, 1))\<rparr> (Str ''example.com'') 0))
   = ''valid''
   \<and> fst (fst (verify_cell (\<lambda>t. ''0.0'') (\<lambda>u. StatusCode 200)
        \<lparr>navigate = (\<lambda>u. (Loaded, 2)), waits = (\<lambda>n t. (BodyLen 100, 1))\<rparr> (Str ''example.com'') 0))
   = ''valid''"
proof -
  have e: "\<not> is_empty_url (strip (str (Str ''example.com'')))"
    by (simp add: strip_def isspace_def is_empty_url_def lower_def lower_char_def)
  have r: "fst (fst (check_with_selenium (\<lambda>t. ''0.0'')
        \<lparr>navigate = (\<lambda>u. (Loaded, 2)), waits = (\<lambda>n t. (BodyLen 100, 1))\<rparr>
        (effective_url (strip (str (Str ''example.com'')))) 0))"
    by (simp add: check_with_selenium_def wait_for_page_complete_def BODY_MIN_LENGTH_def)
  note t = status_independent_of_probe
    [where fmt = "\<lambda>t. ''0.0''" and probe_a = "\<lambda>u. RequestRaised ''refused''"
       and probe_b = "\<lambda>u. StatusCode 200"
       and driver = "\<lparr>navigate = (\<lambda>u. (Loaded, 2)), waits = (\<lambda>n t. (BodyLen 100, 1))\<rparr>"
       and c = "Str ''example.com''" and now = 0]
  from t[THEN conjunct2, THEN conjunct2] e r
  have a: "fst (fst (verify_cell (\<lambda>t. ''0.0'') (\<lambda>u. RequestRaised ''refused'')
        \<lparr>navigate = (\<lambda>u. (Loaded, 2)), waits = (\<lambda>n t. (BodyLen 100, 1))\<rparr> (Str ''example.com'') 0))
     = ''valid''" by simp
  from t[THEN conjunct1] a
  show ?thesis by simp
qed

lemma is_empty_url_iff: "is_empty_url raw \<longleftrightarrow> lower raw \<in> {'''', ''nan'', ''none''}"
  by (auto simp: is_empty_url_def lower_def)

text \<open>
  C8. A URL cell whose text is empty or one of the placeholders \<^verbatim>\<open>nan\<close>, \<^verbatim>\<open>none\<close> in any
  letter case gives status invalid with detail \<^verbatim>\<open>empty url\<close> and no outside call, and the
  clock does not move; the same holds when the text is such a placeholder after
  stripping white space. For every other cell the probe and the renderer are each
  called once, in this order, with the same URL: the stripped text if it starts with
  \<^verbatim>\<open>http://\<close> or \<^verbatim>\<open>https://\<close> (in any letter case), and \<^verbatim>\<open>http://\<close> followed by the stripped
  text otherwise; in both cases a URL with one of the two prefixes.
\<close>

theorem empty_url_short_circuit:
  "(lower (str c) \<in> {'''', ''nan'', ''none''} \<longrightarrow>
      verify_cell fmt probe driver c now = ((''invalid'', ''empty url''), [], now))
   \<and> (lower (strip (str c)) \<in> {'''', ''nan'', ''none''} \<longrightarrow>
      verify_cell fmt probe driver c now = ((''invalid'', ''empty url''), [], now))
   \<and> (lower (strip (str c)) \<notin> {'''', ''nan'', ''none''} \<longrightarrow>
      (\<exists>url. url = (if prefix ''http://'' (lower (strip (str c)))
                        \<or> prefix ''https://'' (lower (strip (str c)))
                     then strip (str c) else ''http://'' @ strip (str c))
          \<and> fst (snd (verify_cell fmt probe driver c now)) = [Probe url, Render url]
          \<and> (prefix ''http://'' (lower url) \<or> prefix ''https://'' (lower url))))"
proof (intro conjI impI)
  assume "lower (str c) \<in> {'''', ''nan'', ''none''}"
  then show "verify_cell fmt probe driver c now = ((''invalid'', ''empty url''), [], now)"
    by (rule placeholder_empty)
next
  assume "lower (strip (str c)) \<in> {'''', ''nan'', ''none''}"
  then have "is_empty_url (strip (str c))" using is_empty_url_iff by blast
  then show "verify_cell fmt probe driver c now = ((''invalid'', ''empty url''), [], now)"
    by (rule verify_cell_empty)
next
  assume "lower (strip (str c)) \<notin> {'''', ''nan'', ''none''}"
  then have ne: "\<not> is_empty_url (strip (str c))" using is_empty_url_iff by blast
  have "fst (snd (verify_cell fmt probe driver c now)) =
      [Probe (effective_url (strip (str c))), Render (effective_url (strip (str c)))]"
    using ne by (rule verify_cell_calls)
  moreover have "prefix ''http://'' (lower (effective_url (strip (str c))))
      \<or> prefix ''https://'' (lower (effective_url (strip (str c))))"
    by (rule effective_url_scheme)
  moreover have "effective_url (strip (str c)) =
      (if prefix ''http://'' (lower (strip (str c))) \<or> prefix ''https://'' (lower (strip (str c)))
       then strip (str c) else ''http://'' @ strip (str c))"
    by (simp add: effective_url_def)
  ultimately show "\<exists>url. url = (if prefix ''http://'' (lower (strip (str c)))
                        \<or> prefix ''https://'' (lower (strip (str c)))
                     then strip (str c) else ''http://'' @ strip (str c))
          \<and> fst (snd (verify_cell fmt probe driver c now)) = [Probe url, Render url]
          \<and> (prefix ''http://'' (lower url) \<or> prefix ''https://'' (lower url))"
    by metis
qed

theorem empty_url_short_circuit_witness:
  "lower (str (Str ''NaN'')) \<in> {'''', ''nan'', ''none''}
   \<and> verify_cell (\<lambda>t. ''0.0'') (\<lambda>u. StatusCode 200)
        \<lparr>navigate = (\<lambda>u. (Loaded, 2)), waits = (\<lambda>n t. (BodyLen 100, 1))\<rparr> (Str ''NaN'') 0
      = ((''invalid'', ''empty url''), [], 0)
   \<and> lower (strip (str (Str ''NaN''))) \<in> {'''', ''nan'', ''none''}
   \<and> lower (strip (str (Str ''example.com''))) \<notin> {'''', ''nan'', ''none''}
   \<and> fst (snd (verify_cell (\<lambda>t. ''0.0'') (\<lambda>u. StatusCode 200)
        \<lparr>navigate = (\<lambda>u. (Loaded, 2)), waits = (\<lambda>n t. (BodyLen 100, 1))\<rparr>
        (Str ''example.com'') 0))
      = [Probe ''http://example.com'', Render ''http://example.com'']"
proof -
  have st1: "strip (str (Str ''NaN'')) = ''NaN''" "strip (str (Str ''example.com'')) = ''example.com''"
    by (simp_all add: strip_def isspace_def)
  have lw: "lower ''NaN'' = ''nan''" "lower ''example.com'' = ''example.com''"
    by (simp_all add: lower_def lower_char_def)
  have h: "lower (str (Str ''NaN'')) \<in> {'''', ''nan'', ''none''}"
    by (simp add: lw)
  have h2: "lower (strip (str (Str ''NaN''))) \<in> {'''', ''nan'', ''none''}"
    by (simp only: st1 lw) simp
  have h3: "lower (strip (str (Str ''example.com''))) \<notin> {'''', ''nan'', ''none''}"
    by (simp only: st1 lw) simp
  from empty_url_short_circuit
    [of "Str ''NaN''" "\<lambda>t. ''0.0''" "\<lambda>u. StatusCode 200"
        "\<lparr>navigate = (\<lambda>u. (Loaded, 2)), waits = (\<lambda>n t. (BodyLen 100, 1))\<rparr>" 0, THEN conjunct1] h
  have a: "verify_cell (\<lambda>t. ''0.0'') (\<lambda>u. StatusCode 200)
        \<lparr>navigate = (\<lambda>u. (Loaded, 2)), waits = (\<lambda>n t. (BodyLen 100, 1))\<rparr> (Str ''NaN'') 0
      = ((''invalid'', ''empty url''), [], 0)" by blast
  from empty_url_short_circuit
    [of "Str ''example.com''" "\<lambda>t. ''0.0''" "\<lambda>u. StatusCode 200"
        "\<lparr>navigate = (\<lambda>u. (Loaded, 2)), waits = (\<lambda>n t. (BodyLen 100, 1))\<rparr>" 0,
     THEN conjunct2, THEN conjunct2] h3
  have "\<exists>url. url = (if prefix ''http://'' (lower (strip (str (Str ''example.com''))))
                        \<or> prefix ''https://'' (lower (strip (str (Str ''example.com''))))
                     then strip (str (Str ''example.com''))
                     else ''http://'' @ strip (str (Str ''example.com'')))
          \<and> fst (snd (verify_cell (\<lambda>t. ''0.0'') (\<lambda>u. StatusCode 200)
        \<lparr>navigate = (\<lambda>u. (Loaded, 2)), waits = (\<lambda>n t. (BodyLen 100, 1))\<rparr>
        (Str ''example.com'') 0)) = [Probe url, Render url]
          \<and> (prefix ''http://'' (lower url) \<or> prefix ''https://'' (lower url))"
    by blast
  then have b: "fst (snd (verify_cell (\<lambda>t. ''0.0'') (\<lambda>u. StatusCode 200)
        \<lparr>navigate = (\<lambda>u. (Loaded, 2)), waits = (\<lambda>n t. (BodyLen 100, 1))\<rparr>
        (Str ''example.com'') 0))
      = [Probe ''http://example.com'', Render ''http://example.com'']"
    unfolding st1 lw by simp
  from h a h2 h3 b show ?thesis by blast
qed

section \<open>The renderer's waits: properties\<close>

lemma retry_timeout_floor:
  "elapsed < SELENIUM_MAX_WAIT_PER_URL \<Longrightarrow>
   retry_timeout elapsed = \<lfloor>min SELENIUM_WAIT_LONG (SELENIUM_MAX_WAIT_PER_URL - elapsed)\<rfloor>"
  by (simp add: retry_timeout_def py_int_def SELENIUM_WAIT_LONG_def SELENIUM_MAX_WAIT_PER_URL_def)

lemma retry_timeout_le:
  "elapsed < SELENIUM_MAX_WAIT_PER_URL \<Longrightarrow>
   0 \<le> retry_timeout elapsed \<and>
   real_of_int (retry_timeout elapsed) \<le> min SELENIUM_WAIT_LONG (SELENIUM_MAX_WAIT_PER_URL - elapsed)"
proof -
  assume a: "elapsed < SELENIUM_MAX_WAIT_PER_URL"
  then have "0 \<le> min SELENIUM_WAIT_LONG (SELENIUM_MAX_WAIT_PER_URL - elapsed)"
    by (simp add: SELENIUM_WAIT_LONG_def)
  then have "0 \<le> \<lfloor>min SELENIUM_WAIT_LONG (SELENIUM_MAX_WAIT_PER_URL - elapsed)\<rfloor>"
    by (simp only: zero_le_floor)
  moreover have "real_of_int \<lfloor>min SELENIUM_WAIT_LONG (SELENIUM_MAX_WAIT_PER_URL - elapsed)\<rfloor>
      \<le> min SELENIUM_WAIT_LONG (SELENIUM_MAX_WAIT_PER_URL - elapsed)"
    by (rule of_int_floor_le)
  ultimately show ?thesis using retry_timeout_floor[OF a] by simp
qed

lemma check_with_selenium_retry:
  assumes "navigate driver url = (g, dg)" and "g = Loaded \<or> g = GetTimeout"
    and "waits driver 0 SELENIUM_WAIT_SHORT = (e1, d1)"
    and "\<not> fst (wait_for_page_complete e1)"
  shows "check_with_selenium fmt driver url start_ts =
     (let detail = snd (wait_for_page_complete e1); elapsed = start_ts + dg + d1 - start_ts in
      if elapsed < SELENIUM_MAX_WAIT_PER_URL then
        let (w2, d2) = waits driver 1 (retry_timeout elapsed);
            (ok2, detail2) = wait_for_page_complete w2;
            t2 = start_ts + dg + d1 + d2
        in if ok2 then
             ((True, ''long_wait_ok:'' @ detail2 @ ''; elapsed='' @ fmt (t2 - start_ts) @ ''s''), t2)
           else
             ((False, ''both_waits_failed: short_detail='' @ detail @ ''; long_detail='' @ detail2
                 @ ''; elapsed='' @ fmt (t2 - start_ts) @ ''s''), t2)
      else
        ((False, ''short_wait_failed_and_no_time_for_long_wait; detail='' @ detail
            @ ''; elapsed='' @ fmt elapsed @ ''s''), start_ts + dg + d1))"
  using assms
  by (auto simp: check_with_selenium_def Let_def split: prod.splits)

text \<open>
  C6. The claim is that the render stage of a URL whose render never completes stays
  within the hard ceiling of 70 seconds. Lines 179 to 181 budget the retry as if a wait
  ended no later than its timeout, and pass the integer part of the remaining time. A
  wait that times out ends only after its timeout has passed. With a page load that
  times out after 30.5 seconds, a short wait (timeout 10) that gives up after 10.5
  seconds and a retry that is given 29 seconds and gives up after 29.5, the render
  stage returns invalid after 70.5 seconds.
\<close>

theorem render_stage_exceeds_ceiling:
  "check_with_selenium (\<lambda>t. ''?'')
        \<lparr>navigate = (\<lambda>u. (GetTimeout, 61 / 2)),
         waits = (\<lambda>n t. (WaitTimeout ''Message: '', real_of_int t + 1 / 2))\<rparr>
        ''http://slow.example'' 0
       = ((False, ''both_waits_failed: short_detail=timeout_waiting:Message: ; long_detail=timeout_waiting:Message: ; elapsed=?s''),
          141 / 2)
   \<and> SELENIUM_MAX_WAIT_PER_URL < 141 / 2
   \<and> retry_timeout 41 = 29"
proof -
  have rt: "retry_timeout 41 = 29"
    by (simp add: retry_timeout_def py_int_def SELENIUM_WAIT_LONG_def SELENIUM_MAX_WAIT_PER_URL_def)
  have c: "check_with_selenium (\<lambda>t. ''?'')
        \<lparr>navigate = (\<lambda>u. (GetTimeout, 61 / 2)),
         waits = (\<lambda>n t. (WaitTimeout ''Message: '', real_of_int t + 1 / 2))\<rparr>
        ''http://slow.example'' 0
       = ((False, ''both_waits_failed: short_detail=timeout_waiting:Message: ; long_detail=timeout_waiting:Message: ; elapsed=?s''),
          141 / 2)"
    by (simp add: check_with_selenium_def wait_for_page_complete_def Let_def rt
        SELENIUM_MAX_WAIT_PER_URL_def SELENIUM_WAIT_SHORT_def)
  have m: "SELENIUM_MAX_WAIT_PER_URL < 141 / 2" by (simp add: SELENIUM_MAX_WAIT_PER_URL_def)
  from rt m c show ?thesis by simp
qed

section \<open>Atomic replace: properties\<close>

lemma save_checkpoint_meta_tmp_neq: "save_checkpoint_meta_tmp path \<noteq> path"
proof
  assume "save_checkpoint_meta_tmp path = path"
  then have "leaf (save_checkpoint_meta_tmp path) = leaf path" by simp
  then show False by (simp add: save_checkpoint_meta_tmp_def)
qed

lemma atomic_write_csv_steps_target:
  assumes "atomic_write_csv_tmp io path \<noteq> path"
  shows "(\<forall>s \<in> set (butlast (atomic_write_csv_steps io df path fs)). s path = fs path)
       \<and> last (atomic_write_csv_steps io df path fs) path =
           (if to_csv_io io = Succeeds \<and> replace_csv_io io = Succeeds
            then Some (Whole (Csv df)) else fs path)"
  using assms
  by (cases "to_csv_io io"; cases "replace_csv_io io")
     (simp_all add: atomic_write_csv_steps_def Let_def os_replace_def)

lemma save_checkpoint_meta_steps_target:
  "(\<forall>s \<in> set (butlast (save_checkpoint_meta_steps io m path fs)). s path = fs path)
   \<and> last (save_checkpoint_meta_steps io m path fs) path =
       (if json_dump_io io = Succeeds \<and> replace_json_io io = Succeeds
        then Some (Whole (Json m)) else fs path)"
  using save_checkpoint_meta_tmp_neq[of path]
  by (cases "json_dump_io io"; cases "replace_json_io io")
     (simp_all add: save_checkpoint_meta_steps_def Let_def os_replace_def)

lemma atomic_write_csv_steps_other:
  "q \<noteq> path \<Longrightarrow> q \<noteq> atomic_write_csv_tmp io path \<Longrightarrow>
   last (atomic_write_csv_steps io df path fs) q = fs q"
  by (cases "to_csv_io io"; cases "replace_csv_io io")
     (simp_all add: atomic_write_csv_steps_def Let_def os_replace_def)

lemma save_checkpoint_meta_steps_other:
  "q \<noteq> path \<Longrightarrow> q \<noteq> save_checkpoint_meta_tmp path \<Longrightarrow>
   last (save_checkpoint_meta_steps io m path fs) q = fs q"
  by (cases "json_dump_io io"; cases "replace_json_io io")
     (simp_all add: save_checkpoint_meta_steps_def Let_def os_replace_def)

text \<open>
  C4. \<^verbatim>\<open>atomic_write_csv\<close> and \<^verbatim>\<open>save_checkpoint_meta\<close> write to a temporary file in the
  directory of the target and install it with one \<^verbatim>\<open>os.replace\<close>. In every state of the
  disk before the last one the target is exactly what it was before the call; in the
  last state it is the complete new content if no call raised and unchanged otherwise.
  So the target is never torn by the save and always holds the previous or the new
  complete copy. For the CSV the name \<^verbatim>\<open>mkstemp\<close> chooses must differ from the target's
  name, which \<^verbatim>\<open>mkstemp\<close> ensures for an existing target by creating a new file.
\<close>

theorem persist_is_atomic_replace:
  assumes "leaf path \<noteq> leaf (atomic_write_csv_tmp io path)"
  shows "(\<forall>s \<in> set (butlast (atomic_write_csv_steps io df path fs)). s path = fs path)
       \<and> last (atomic_write_csv_steps io df path fs) path =
           (if snd (atomic_write_csv io df path fs) = Succeeds then Some (Whole (Csv df)) else fs path)
       \<and> (\<forall>s \<in> set (atomic_write_csv_steps io df path fs).
             s path = fs path \<or> s path = Some (Whole (Csv df)))
       \<and> dirname (atomic_write_csv_tmp io path) = (if dirname path = '''' then ''.'' else dirname path)
       \<and> (\<forall>s \<in> set (butlast (save_checkpoint_meta_steps io m cpath fs)). s cpath = fs cpath)
       \<and> last (save_checkpoint_meta_steps io m cpath fs) cpath =
           (if snd (save_checkpoint_meta io m cpath fs) = Succeeds then Some (Whole (Json m))
            else fs cpath)
       \<and> (\<forall>s \<in> set (save_checkpoint_meta_steps io m cpath fs).
             s cpath = fs cpath \<or> s cpath = Some (Whole (Json m)))
       \<and> dirname (save_checkpoint_meta_tmp cpath) = dirname cpath"
proof -
  from assms have ne: "atomic_write_csv_tmp io path \<noteq> path" by auto
  note c = atomic_write_csv_steps_target[OF ne, of df fs]
  note j = save_checkpoint_meta_steps_target[of io m cpath fs]
  have nonempty: "atomic_write_csv_steps io df path fs \<noteq> []"
    "save_checkpoint_meta_steps io m cpath fs \<noteq> []"
    by (cases "to_csv_io io"; cases "replace_csv_io io"; cases "json_dump_io io";
        cases "replace_json_io io";
        simp add: atomic_write_csv_steps_def save_checkpoint_meta_steps_def Let_def)+
  have c1: "\<forall>s \<in> set (butlast (atomic_write_csv_steps io df path fs)). s path = fs path"
    using c by blast
  have c2: "last (atomic_write_csv_steps io df path fs) path =
           (if snd (atomic_write_csv io df path fs) = Succeeds then Some (Whole (Csv df)) else fs path)"
    using c by (cases "to_csv_io io"; cases "replace_csv_io io") (simp_all add: atomic_write_csv_def)
  have c3: "\<forall>s \<in> set (atomic_write_csv_steps io df path fs).
             s path = fs path \<or> s path = Some (Whole (Csv df))"
  proof
    fix s assume "s \<in> set (atomic_write_csv_steps io df path fs)"
    then have "s \<in> set (butlast (atomic_write_csv_steps io df path fs))
        \<or> s = last (atomic_write_csv_steps io df path fs)"
      using nonempty(1) by (metis append_butlast_last_id in_set_conv_decomp rotate1.simps(2) set_ConsD set_rotate1)
    with c1 c2 show "s path = fs path \<or> s path = Some (Whole (Csv df))"
      by (auto split: if_splits)
  qed
  have c4: "dirname (atomic_write_csv_tmp io path) = (if dirname path = '''' then ''.'' else dirname path)"
    by (simp add: atomic_write_csv_tmp_def mkstemp_def dirname_def Let_def)
  have j1: "\<forall>s \<in> set (butlast (save_checkpoint_meta_steps io m cpath fs)). s cpath = fs cpath"
    using j by blast
  have j2: "last (save_checkpoint_meta_steps io m cpath fs) cpath =
           (if snd (save_checkpoint_meta io m cpath fs) = Succeeds then Some (Whole (Json m))
            else fs cpath)"
    using j by (cases "json_dump_io io"; cases "replace_json_io io")
      (simp_all add: save_checkpoint_meta_def)
  have j3: "\<forall>s \<in> set (save_checkpoint_meta_steps io m cpath fs).
             s cpath = fs cpath \<or> s cpath = Some (Whole (Json m))"
  proof
    fix s assume "s \<in> set (save_checkpoint_meta_steps io m cpath fs)"
    then have "s \<in> set (butlast (save_checkpoint_meta_steps io m cpath fs))
        \<or> s = last (save_checkpoint_meta_steps io m cpath fs)"
      using nonempty(2) by (metis append_butlast_last_id in_set_conv_decomp rotate1.simps(2) set_ConsD set_rotate1)
    with j1 j2 show "s cpath = fs cpath \<or> s cpath = Some (Whole (Json m))"
      by (auto split: if_splits)
  qed
  have j4: "dirname (save_checkpoint_meta_tmp cpath) = dirname cpath"
    by (simp add: save_checkpoint_meta_tmp_def dirname_def)
  from c1 c2 c3 c4 j1 j2 j3 j4 show ?thesis by blast
qed

theorem persist_is_atomic_replace_witness:
  "leaf OUTPUT_CSV \<noteq> leaf (atomic_write_csv_tmp
      \<lparr>tmp_rnd = ''k3x9'', to_csv_io = Succeeds, replace_csv_io = Succeeds, to_excel_io = Succeeds,
       json_dump_io = Succeeds, replace_json_io = Succeeds\<rparr> OUTPUT_CSV)
   \<and> last (atomic_write_csv_steps
      \<lparr>tmp_rnd = ''k3x9'', to_csv_io = Succeeds, replace_csv_io = Succeeds, to_excel_io = Succeeds,
       json_dump_io = Succeeds, replace_json_io = Succeeds\<rparr>
      \<lparr>has_url = True, has_status = True, has_detail = True, rows = ([] :: unit row list)\<rparr>
      OUTPUT_CSV Map.empty) OUTPUT_CSV
     = Some (Whole (Csv \<lparr>has_url = True, has_status = True, has_detail = True, rows = []\<rparr>))
   \<and> last (save_checkpoint_meta_steps
      \<lparr>tmp_rnd = ''k3x9'', to_csv_io = Succeeds, replace_csv_io = Succeeds, to_excel_io = Succeeds,
       json_dump_io = Succeeds, replace_json_io = Succeeds\<rparr>
      \<lparr>last_processed_index = Some 0\<rparr> CHECKPOINT_JSON (Map.empty :: unit fs)) CHECKPOINT_JSON
     = Some (Whole (Json \<lparr>last_processed_index = Some 0\<rparr>))"
proof -
  define io where "io = \<lparr>tmp_rnd = ''k3x9'', to_csv_io = Succeeds, replace_csv_io = Succeeds,
       to_excel_io = Succeeds, json_dump_io = Succeeds, replace_json_io = Succeeds\<rparr>"
  have h: "leaf OUTPUT_CSV \<noteq> leaf (atomic_write_csv_tmp io OUTPUT_CSV)"
    by (simp add: OUTPUT_CSV_def atomic_write_csv_tmp_def mkstemp_def io_def)
  have s1: "snd (atomic_write_csv io
      \<lparr>has_url = True, has_status = True, has_detail = True, rows = ([] :: unit row list)\<rparr>
      OUTPUT_CSV Map.empty) = Succeeds"
    by (simp add: atomic_write_csv_def io_def)
  have s2: "snd (save_checkpoint_meta io \<lparr>last_processed_index = Some 0\<rparr> CHECKPOINT_JSON
      (Map.empty :: unit fs)) = Succeeds"
    by (simp add: save_checkpoint_meta_def io_def)
  note t = persist_is_atomic_replace[OF h,
      of "\<lparr>has_url = True, has_status = True, has_detail = True, rows = ([] :: unit row list)\<rparr>"
         Map.empty "\<lparr>last_processed_index = Some 0\<rparr>" CHECKPOINT_JSON]
  from t[THEN conjunct2, THEN conjunct1] s1
  have a: "last (atomic_write_csv_steps io
      \<lparr>has_url = True, has_status = True, has_detail = True, rows = ([] :: unit row list)\<rparr>
      OUTPUT_CSV Map.empty) OUTPUT_CSV
     = Some (Whole (Csv \<lparr>has_url = True, has_status = True, has_detail = True, rows = []\<rparr>))"
    by simp
  from t[THEN conjunct2, THEN conjunct2, THEN conjunct2, THEN conjunct2, THEN conjunct2, THEN conjunct1] s2
  have b: "last (save_checkpoint_meta_steps io \<lparr>last_processed_index = Some 0\<rparr> CHECKPOINT_JSON
      (Map.empty :: unit fs)) CHECKPOINT_JSON = Some (Whole (Json \<lparr>last_processed_index = Some 0\<rparr>))"
    by simp
  from h a b show ?thesis unfolding io_def by blast
qed

section \<open>The driver: properties\<close>

lemma tmp_not_output:
  "atomic_write_csv_tmp io OUTPUT_CSV \<noteq> OUTPUT_CSV"
  "atomic_write_csv_tmp io OUTPUT_CSV \<noteq> OUTPUT_XLSX"
  "atomic_write_csv_tmp io OUTPUT_CSV \<noteq> CHECKPOINT_JSON"
  "save_checkpoint_meta_tmp CHECKPOINT_JSON \<noteq> OUTPUT_CSV"
  "save_checkpoint_meta_tmp CHECKPOINT_JSON \<noteq> OUTPUT_XLSX"
  "save_checkpoint_meta_tmp CHECKPOINT_JSON \<noteq> CHECKPOINT_JSON"
  "OUTPUT_CSV \<noteq> OUTPUT_XLSX" "OUTPUT_CSV \<noteq> CHECKPOINT_JSON" "OUTPUT_XLSX \<noteq> CHECKPOINT_JSON"
  by (simp_all add: atomic_write_csv_tmp_def mkstemp_def save_checkpoint_meta_tmp_def
      OUTPUT_CSV_def OUTPUT_XLSX_def CHECKPOINT_JSON_def dirname_def)

lemma atomic_write_csv_OUTPUT:
  "fst (atomic_write_csv io df OUTPUT_CSV fs) OUTPUT_CSV =
     (if snd (atomic_write_csv io df OUTPUT_CSV fs) = Succeeds then Some (Whole (Csv df))
      else fs OUTPUT_CSV)"
  "fst (atomic_write_csv io df OUTPUT_CSV fs) OUTPUT_XLSX = fs OUTPUT_XLSX"
  "fst (atomic_write_csv io df OUTPUT_CSV fs) CHECKPOINT_JSON = fs CHECKPOINT_JSON"
proof -
  show "fst (atomic_write_csv io df OUTPUT_CSV fs) OUTPUT_CSV =
     (if snd (atomic_write_csv io df OUTPUT_CSV fs) = Succeeds then Some (Whole (Csv df))
      else fs OUTPUT_CSV)"
    using atomic_write_csv_steps_target[OF tmp_not_output(1), of io df fs]
    by (cases "to_csv_io io"; cases "replace_csv_io io") (simp_all add: atomic_write_csv_def)
  have x: "OUTPUT_XLSX \<noteq> OUTPUT_CSV" "OUTPUT_XLSX \<noteq> atomic_write_csv_tmp io OUTPUT_CSV"
    using tmp_not_output(2,7) by metis+
  have c: "CHECKPOINT_JSON \<noteq> OUTPUT_CSV" "CHECKPOINT_JSON \<noteq> atomic_write_csv_tmp io OUTPUT_CSV"
    using tmp_not_output(3,8) by metis+
  show "fst (atomic_write_csv io df OUTPUT_CSV fs) OUTPUT_XLSX = fs OUTPUT_XLSX"
    using atomic_write_csv_steps_other[OF x, of df fs] by (simp add: atomic_write_csv_def)
  show "fst (atomic_write_csv io df OUTPUT_CSV fs) CHECKPOINT_JSON = fs CHECKPOINT_JSON"
    using atomic_write_csv_steps_other[OF c, of df fs] by (simp add: atomic_write_csv_def)
qed

lemma save_checkpoint_meta_OUTPUT:
  "fst (save_checkpoint_meta io m CHECKPOINT_JSON fs) CHECKPOINT_JSON =
     (if snd (save_checkpoint_meta io m CHECKPOINT_JSON fs) = Succeeds then Some (Whole (Json m))
      else fs CHECKPOINT_JSON)"
  "fst (save_checkpoint_meta io m CHECKPOINT_JSON fs) OUTPUT_CSV = fs OUTPUT_CSV"
  "fst (save_checkpoint_meta io m CHECKPOINT_JSON fs) OUTPUT_XLSX = fs OUTPUT_XLSX"
proof -
  show "fst (save_checkpoint_meta io m CHECKPOINT_JSON fs) CHECKPOINT_JSON =
     (if snd (save_checkpoint_meta io m CHECKPOINT_JSON fs) = Succeeds then Some (Whole (Json m))
      else fs CHECKPOINT_JSON)"
    using save_checkpoint_meta_steps_target[of io m CHECKPOINT_JSON fs]
    by (cases "json_dump_io io"; cases "replace_json_io io") (simp_all add: save_checkpoint_meta_def)
  have x: "OUTPUT_XLSX \<noteq> CHECKPOINT_JSON" "OUTPUT_XLSX \<noteq> save_checkpoint_meta_tmp CHECKPOINT_JSON"
    using tmp_not_output(5,9) by metis+
  have c: "OUTPUT_CSV \<noteq> CHECKPOINT_JSON" "OUTPUT_CSV \<noteq> save_checkpoint_meta_tmp CHECKPOINT_JSON"
    using tmp_not_output(4,8) by metis+
  show "fst (save_checkpoint_meta io m CHECKPOINT_JSON fs) OUTPUT_CSV = fs OUTPUT_CSV"
    using save_checkpoint_meta_steps_other[OF c, of io m fs] by (simp add: save_checkpoint_meta_def)
  show "fst (save_checkpoint_meta io m CHECKPOINT_JSON fs) OUTPUT_XLSX = fs OUTPUT_XLSX"
    using save_checkpoint_meta_steps_other[OF x, of io m fs] by (simp add: save_checkpoint_meta_def)
qed

lemma to_excel_OUTPUT:
  "fst (to_excel io df OUTPUT_XLSX fs) OUTPUT_CSV = fs OUTPUT_CSV"
  "fst (to_excel io df OUTPUT_XLSX fs) CHECKPOINT_JSON = fs CHECKPOINT_JSON"
  "fst (to_excel io df OUTPUT_XLSX fs) OUTPUT_XLSX =
     (if to_excel_io io = Succeeds then Some (Whole (Xlsx df)) else Some Torn)"
  "snd (to_excel io df OUTPUT_XLSX fs) = to_excel_io io"
  using tmp_not_output(7,9) by (cases "to_excel_io io"; simp add: to_excel_def)+

lemma final_save_events:
  "\<exists>evs. snd (final_save io df m fs) = CsvWrite df # evs
     \<and> (\<forall>e \<in> set evs. e = XlsxWrite df \<or> e = MetaWrite m)"
  by (simp add: final_save_def split: prod.splits io.splits)

lemma final_save_all_succeed:
  assumes "to_csv_io io = Succeeds" "replace_csv_io io = Succeeds" "to_excel_io io = Succeeds"
    "json_dump_io io = Succeeds" "replace_json_io io = Succeeds"
  shows "fst (final_save io df m fs) OUTPUT_CSV = Some (Whole (Csv df))
       \<and> fst (final_save io df m fs) OUTPUT_XLSX = Some (Whole (Xlsx df))
       \<and> fst (final_save io df m fs) CHECKPOINT_JSON = Some (Whole (Json m))
       \<and> snd (final_save io df m fs) = [CsvWrite df, XlsxWrite df, MetaWrite m]"
proof -
  have a: "snd (atomic_write_csv io df OUTPUT_CSV fs) = Succeeds"
    using assms by (simp add: atomic_write_csv_def)
  have j: "\<And>fs'. snd (save_checkpoint_meta io m CHECKPOINT_JSON fs') = Succeeds"
    using assms by (simp add: save_checkpoint_meta_def)
  obtain fs1 where fs1: "atomic_write_csv io df OUTPUT_CSV fs = (fs1, Succeeds)"
    using a by (cases "atomic_write_csv io df OUTPUT_CSV fs") simp
  obtain fs2 where fs2: "to_excel io df OUTPUT_XLSX fs1 = (fs2, Succeeds)"
    using assms to_excel_OUTPUT(4)[of io df fs1] by (cases "to_excel io df OUTPUT_XLSX fs1") simp
  have fin: "final_save io df m fs =
      (fst (save_checkpoint_meta io m CHECKPOINT_JSON fs2), [CsvWrite df, XlsxWrite df, MetaWrite m])"
    by (simp add: final_save_def fs1 fs2)
  have c1: "fs1 OUTPUT_CSV = Some (Whole (Csv df))"
    using atomic_write_csv_OUTPUT(1)[of io df fs] a fs1 by simp
  have c2: "fs2 OUTPUT_CSV = Some (Whole (Csv df))" "fs2 OUTPUT_XLSX = Some (Whole (Xlsx df))"
    using to_excel_OUTPUT[of io df fs1] fs2 c1 assms by simp_all
  show ?thesis
    unfolding fin using c2 j[of fs2] save_checkpoint_meta_OUTPUT[of io m fs2] by simp
qed

lemma finally_block_fields:
  "cur_df (finally_block io s) = cur_df s"
  "cur_meta (finally_block io s) = cur_meta s"
  "disk (finally_block io s) = fst (final_save io (cur_df s) (cur_meta s) (disk s))"
  "trace (finally_block io s) = trace s @ DriverQuit # snd (final_save io (cur_df s) (cur_meta s) (disk s))"
  by (simp_all add: finally_block_def split: prod.splits)

lemma checkpoint_events:
  "\<forall>e \<in> set (snd (checkpoint io df m fs)). e = CsvWrite df \<or> e = MetaWrite m"
  by (simp add: checkpoint_def split: prod.splits io.splits)

lemma loop_body_trace:
  "\<exists>evs. trace (fst (loop_body fmt w idx s)) = trace s @ evs \<and> DriverQuit \<notin> set evs"
proof (cases "interrupt w idx = Some WhileVerifying")
  case True
  then show ?thesis by (simp add: loop_body_def)
next
  case False
  obtain st det cs now' where v: "verify_cell fmt (requests_get w idx) (chrome w idx)
      (url_cell (rows (cur_df s) ! idx)) (clock s) = ((st, det), cs, now')"
    by (metis prod.exhaust)
  obtain fs' evs where c: "checkpoint (autosave_io w idx) (set_result (cur_df s) idx st det)
      ((cur_meta s)\<lparr>last_processed_index := Some idx\<rparr>) (disk s) = (fs', evs)"
    by (metis prod.exhaust)
  have "DriverQuit \<notin> set evs"
    using checkpoint_events[of "autosave_io w idx" "set_result (cur_df s) idx st det"
        "(cur_meta s)\<lparr>last_processed_index := Some idx\<rparr>" "disk s"] c by auto
  moreover have "DriverQuit \<notin> set (map Called cs)" by auto
  ultimately show ?thesis
    using False by (simp add: loop_body_def v c Let_def)
qed

lemma run_rows_trace:
  "\<exists>evs. trace (fst (run_rows fmt w idxs s)) = trace s @ evs \<and> DriverQuit \<notin> set evs"
proof (induction idxs arbitrary: s)
  case Nil
  then show ?case by simp
next
  case (Cons idx rest)
  obtain s' ex where b: "loop_body fmt w idx s = (s', ex)" by (metis prod.exhaust)
  from loop_body_trace[of fmt w idx s] b obtain e1 where
    e1: "trace s' = trace s @ e1" "DriverQuit \<notin> set e1" by auto
  show ?case
  proof (cases ex)
    case Raised
    with b e1 show ?thesis by simp
  next
    case Completed
    from Cons.IH[of s'] obtain e2 where
      "trace (fst (run_rows fmt w rest s')) = trace s' @ e2" "DriverQuit \<notin> set e2" by auto
    with b e1 Completed show ?thesis by simp
  qed
qed

text \<open>
  C9, as the claim states it, fails: with a table that is fully resolved at start the
  run writes neither the CSV snapshot nor the checkpoint record. A previous output with
  one valid row for an input of one row, and no checkpoint file on disk: the only write
  is the spreadsheet, and the checkpoint file is still absent afterwards.
\<close>

theorem all_resolved_no_checkpoint_written:
  "trace (fst (main (\<lambda>t. ''?'')
      \<lparr>requests_get = (\<lambda>i u. StatusCode 200),
       chrome = (\<lambda>i. \<lparr>navigate = (\<lambda>u. (Loaded, 1)), waits = (\<lambda>n t. (BodyLen 100, 1))\<rparr>),
       interrupt = (\<lambda>i. None),
       autosave_io = (\<lambda>i. \<lparr>tmp_rnd = ''a'', to_csv_io = Succeeds, replace_csv_io = Succeeds,
          to_excel_io = Succeeds, json_dump_io = Succeeds, replace_json_io = Succeeds\<rparr>),
       final_io = \<lparr>tmp_rnd = ''a'', to_csv_io = Succeeds, replace_csv_io = Succeeds,
          to_excel_io = Succeeds, json_dump_io = Succeeds, replace_json_io = Succeeds\<rparr>\<rparr>
      [\<lparr>o_url = Str ''http://a.example'', o_other = ()\<rparr>]
      (Parsed \<lparr>has_url = True, has_status = True, has_detail = True,
         rows = [\<lparr>url_cell = Str ''http://a.example'', other = (), status = Str ''valid'',
                  status_detail = Str ''d''\<rparr>]\<rparr>)
      None Map.empty 0))
   = [XlsxWrite \<lparr>has_url = True, has_status = True, has_detail = True,
         rows = [\<lparr>url_cell = Str ''http://a.example'', other = (), status = Str ''valid'',
                  status_detail = Str ''d''\<rparr>]\<rparr>]
   \<and> disk (fst (main (\<lambda>t. ''?'')
      \<lparr>requests_get = (\<lambda>i u. StatusCode 200),
       chrome = (\<lambda>i. \<lparr>navigate = (\<lambda>u. (Loaded, 1)), waits = (\<lambda>n t. (BodyLen 100, 1))\<rparr>),
       interrupt = (\<lambda>i. None),
       autosave_io = (\<lambda>i. \<lparr>tmp_rnd = ''a'', to_csv_io = Succeeds, replace_csv_io = Succeeds,
          to_excel_io = Succeeds, json_dump_io = Succeeds, replace_json_io = Succeeds\<rparr>),
       final_io = \<lparr>tmp_rnd = ''a'', to_csv_io = Succeeds, replace_csv_io = Succeeds,
          to_excel_io = Succeeds, json_dump_io = Succeeds, replace_json_io = Succeeds\<rparr>\<rparr>
      [\<lparr>o_url = Str ''http://a.example'', o_other = ()\<rparr>]
      (Parsed \<lparr>has_url = True, has_status = True, has_detail = True,
         rows = [\<lparr>url_cell = Str ''http://a.example'', other = (), status = Str ''valid'',
                  status_detail = Str ''d''\<rparr>]\<rparr>)
      None Map.empty 0)) CHECKPOINT_JSON = None"
proof -
  have wf: "working_frame [\<lparr>o_url = Str ''http://a.example'', o_other = ()\<rparr>]
      (Parsed \<lparr>has_url = True, has_status = True, has_detail = True,
         rows = [\<lparr>url_cell = Str ''http://a.example'', other = (), status = Str ''valid'',
                  status_detail = Str ''d''\<rparr>]\<rparr>)
     = \<lparr>has_url = True, has_status = True, has_detail = True,
         rows = [\<lparr>url_cell = Str ''http://a.example'', other = (), status = Str ''valid'',
                  status_detail = Str ''d''\<rparr>]\<rparr>"
    by (simp add: working_frame_def)
  have fu: "first_unprocessed \<lparr>has_url = True, has_status = True, has_detail = True,
         rows = [\<lparr>url_cell = Str ''http://a.example'', other = (), status = Str ''valid'',
                  status_detail = Str ''d''\<rparr>]\<rparr> = None"
    by (simp add: first_unprocessed_def is_unprocessed_def strip_def isspace_def)
  show ?thesis
    unfolding main_def wf
    by (simp add: fu Let_def to_excel_OUTPUT)
qed

text \<open>
  C9, amended. When the working table has a status column and no unresolved row at
  start, \<open>main\<close> returns without starting the browser and without any verification: the
  only event is one write of the spreadsheet snapshot of the unchanged table. The CSV
  snapshot and the checkpoint record on disk are left as they were.
\<close>

theorem all_resolved_writes_spreadsheet_only:
  assumes "has_status (working_frame original_df out)"
    and "first_unprocessed (working_frame original_df out) = None"
  shows "snd (main fmt w original_df out loaded fs now) = Returned
       \<and> trace (fst (main fmt w original_df out loaded fs now))
           = [XlsxWrite (working_frame original_df out)]
       \<and> cur_df (fst (main fmt w original_df out loaded fs now)) = working_frame original_df out
       \<and> disk (fst (main fmt w original_df out loaded fs now)) OUTPUT_CSV = fs OUTPUT_CSV
       \<and> disk (fst (main fmt w original_df out loaded fs now)) CHECKPOINT_JSON = fs CHECKPOINT_JSON
       \<and> disk (fst (main fmt w original_df out loaded fs now)) OUTPUT_XLSX
           = (if to_excel_io (final_io w) = Succeeds
              then Some (Whole (Xlsx (working_frame original_df out))) else Some Torn)"
  using assms by (simp add: main_def Let_def to_excel_OUTPUT)

theorem all_resolved_writes_spreadsheet_only_witness:
  "has_status (working_frame [\<lparr>o_url = Str ''http://a.example'', o_other = ()\<rparr>]
      (Parsed \<lparr>has_url = True, has_status = True, has_detail = True,
         rows = [\<lparr>url_cell = Str ''http://a.example'', other = (), status = Str ''invalid'',
                  status_detail = Str ''d''\<rparr>]\<rparr>))
   \<and> first_unprocessed (working_frame [\<lparr>o_url = Str ''http://a.example'', o_other = ()\<rparr>]
      (Parsed \<lparr>has_url = True, has_status = True, has_detail = True,
         rows = [\<lparr>url_cell = Str ''http://a.example'', other = (), status = Str ''invalid'',
                  status_detail = Str ''d''\<rparr>]\<rparr>)) = None
   \<and> snd (main (\<lambda>t. ''?'')
      \<lparr>requests_get = (\<lambda>i u. StatusCode 200),
       chrome = (\<lambda>i. \<lparr>navigate = (\<lambda>u. (Loaded, 1)), waits = (\<lambda>n t. (BodyLen 100, 1))\<rparr>),
       interrupt = (\<lambda>i. None),
       autosave_io = (\<lambda>i. \<lparr>tmp_rnd = ''a'', to_csv_io = Succeeds, replace_csv_io = Succeeds,
          to_excel_io = Succeeds, json_dump_io = Succeeds, replace_json_io = Succeeds\<rparr>),
       final_io = \<lparr>tmp_rnd = ''a'', to_csv_io = Succeeds, replace_csv_io = Succeeds,
          to_excel_io = Succeeds, json_dump_io = Succeeds, replace_json_io = Succeeds\<rparr>\<rparr>
      [\<lparr>o_url = Str ''http://a.example'', o_other = ()\<rparr>]
      (Parsed \<lparr>has_url = True, has_status = True, has_detail = True,
         rows = [\<lparr>url_cell = Str ''http://a.example'', other = (), status = Str ''invalid'',
                  status_detail = Str ''d''\<rparr>]\<rparr>)
      None (Map.empty :: unit fs) 0) = Returned"
proof -
  have wf: "working_frame [\<lparr>o_url = Str ''http://a.example'', o_other = ()\<rparr>]
      (Parsed \<lparr>has_url = True, has_status = True, has_detail = True,
         rows = [\<lparr>url_cell = Str ''http://a.example'', other = (), status = Str ''invalid'',
                  status_detail = Str ''d''\<rparr>]\<rparr>)
     = \<lparr>has_url = True, has_status = True, has_detail = True,
         rows = [\<lparr>url_cell = Str ''http://a.example'', other = (), status = Str ''invalid'',
                  status_detail = Str ''d''\<rparr>]\<rparr>"
    by (simp add: working_frame_def)
  have h1: "has_status (working_frame [\<lparr>o_url = Str ''http://a.example'', o_other = ()\<rparr>]
      (Parsed \<lparr>has_url = True, has_status = True, has_detail = True,
         rows = [\<lparr>url_cell = Str ''http://a.example'', other = (), status = Str ''invalid'',
                  status_detail = Str ''d''\<rparr>]\<rparr>))"
    unfolding wf by simp
  have h2: "first_unprocessed (working_frame [\<lparr>o_url = Str ''http://a.example'', o_other = ()\<rparr>]
      (Parsed \<lparr>has_url = True, has_status = True, has_detail = True,
         rows = [\<lparr>url_cell = Str ''http://a.example'', other = (), status = Str ''invalid'',
                  status_detail = Str ''d''\<rparr>]\<rparr>)) = None"
    unfolding wf by (simp add: first_unprocessed_def is_unprocessed_def strip_def isspace_def)
  from all_resolved_writes_spreadsheet_only[OF h1 h2, THEN conjunct1] h1 h2
  show ?thesis by blast
qed

lemma final_save_events_exact:
  "snd (final_save io df m fs) =
     CsvWrite df #
       (if to_csv_io io = Succeeds \<and> replace_csv_io io = Succeeds
        then XlsxWrite df # (if to_excel_io io = Succeeds then [MetaWrite m] else [])
        else [])"
  by (cases "to_csv_io io"; cases "replace_csv_io io"; cases "to_excel_io io")
     (simp_all add: final_save_def atomic_write_csv_def to_excel_def split: prod.splits)

lemma final_save_disk_csv:
  assumes "to_csv_io io = Succeeds" and "replace_csv_io io = Succeeds"
  shows "fst (final_save io df m fs) OUTPUT_CSV = Some (Whole (Csv df))"
proof -
  have a: "snd (atomic_write_csv io df OUTPUT_CSV fs) = Succeeds"
    using assms by (simp add: atomic_write_csv_def)
  obtain fs1 where fs1: "atomic_write_csv io df OUTPUT_CSV fs = (fs1, Succeeds)"
    using a by (cases "atomic_write_csv io df OUTPUT_CSV fs") simp
  have c1: "fs1 OUTPUT_CSV = Some (Whole (Csv df))"
    using atomic_write_csv_OUTPUT(1)[of io df fs] a fs1 by simp
  obtain fs2 e2 where fs2: "to_excel io df OUTPUT_XLSX fs1 = (fs2, e2)"
    by (cases "to_excel io df OUTPUT_XLSX fs1") simp
  have c2: "fs2 OUTPUT_CSV = Some (Whole (Csv df))"
    using to_excel_OUTPUT(1)[of io df fs1] fs2 c1 by simp
  show ?thesis
  proof (cases e2)
    case Raises
    then show ?thesis by (simp add: final_save_def fs1 fs2 c2)
  next
    case Succeeds
    then show ?thesis
      using save_checkpoint_meta_OUTPUT(2)[of io m fs2] c2 by (simp add: final_save_def fs1 fs2)
  qed
qed

lemma set_result_length: "length (rows (set_result df idx st det)) = length (rows df)"
  by (simp add: set_result_def Let_def)

lemma loop_body_plain:
  assumes "interrupt w idx = None"
    and "verify_cell fmt (requests_get w idx) (chrome w idx)
           (url_cell (rows (cur_df s) ! idx)) (clock s) = ((st, det), cs, now')"
  shows "snd (loop_body fmt w idx s) = Completed"
    and "cur_df (fst (loop_body fmt w idx s)) = set_result (cur_df s) idx st det"
    and "clock (fst (loop_body fmt w idx s)) = now'"
    and "\<exists>evs. trace (fst (loop_body fmt w idx s)) = trace s @ map Called cs @ evs"
  using assms
  by (simp_all add: loop_body_def AUTOSAVE_EVERY_def Let_def split: prod.splits)

lemma loop_body_length:
  "length (rows (cur_df (fst (loop_body fmt w idx s)))) = length (rows (cur_df s))"
proof (cases "interrupt w idx = Some WhileVerifying")
  case True
  then show ?thesis by (simp add: loop_body_def)
next
  case False
  obtain st det cs now' where v: "verify_cell fmt (requests_get w idx) (chrome w idx)
      (url_cell (rows (cur_df s) ! idx)) (clock s) = ((st, det), cs, now')"
    by (metis prod.exhaust)
  show ?thesis
    using False
    by (simp add: loop_body_def v Let_def set_result_length split: prod.splits)
qed

lemma run_rows_length:
  "length (rows (cur_df (fst (run_rows fmt w idxs s)))) = length (rows (cur_df s))"
proof (induction idxs arbitrary: s)
  case Nil
  then show ?case by simp
next
  case (Cons idx rest)
  obtain s' ex where b: "loop_body fmt w idx s = (s', ex)" by (metis prod.exhaust)
  have l: "length (rows (cur_df s')) = length (rows (cur_df s))"
    using loop_body_length[of fmt w idx s] b by simp
  show ?case
  proof (cases ex)
    case Raised
    with b l show ?thesis by simp
  next
    case Completed
    with b l Cons.IH[of s'] show ?thesis by simp
  qed
qed

lemma loop_body_exit:
  "snd (loop_body fmt w idx s) = Raised \<longleftrightarrow> interrupt w idx \<noteq> None"
proof (cases "interrupt w idx")
  case None
  then show ?thesis
    by (simp add: loop_body_def AUTOSAVE_EVERY_def Let_def split: prod.splits)
next
  case (Some p)
  then show ?thesis
    by (cases p) (simp_all add: loop_body_def AUTOSAVE_EVERY_def Let_def split: prod.splits)
qed

lemma run_rows_exit:
  "snd (run_rows fmt w idxs s) = Raised \<longleftrightarrow> (\<exists>idx \<in> set idxs. interrupt w idx \<noteq> None)"
proof (induction idxs arbitrary: s)
  case Nil
  then show ?case by simp
next
  case (Cons idx rest)
  obtain s' ex where b: "loop_body fmt w idx s = (s', ex)" by (metis prod.exhaust)
  have e: "ex = Raised \<longleftrightarrow> interrupt w idx \<noteq> None"
    using loop_body_exit[of fmt w idx s] b by simp
  show ?case
  proof (cases ex)
    case Raised
    with b e show ?thesis by simp
  next
    case Completed
    with b e Cons.IH[of s'] show ?thesis by simp
  qed
qed

text \<open>
  C3. Whenever the loop is entered, whatever happens in it (it runs to the end, or a
  \<^verbatim>\<open>KeyboardInterrupt\<close> leaves it during the verification or the save of any row), the
  \<^verbatim>\<open>finally\<close> clause runs once after it: the driver is quit and then the whole table, as
  the loop left it, is written as CSV; the spreadsheet follows if that write did not
  raise and the checkpoint record if neither raised. A CSV write that does not raise
  leaves the complete table at \<^verbatim>\<open>OUTPUT_CSV\<close>, and when no write raises the checkpoint
  record is at \<^verbatim>\<open>CHECKPOINT_JSON\<close>. The run ends by an exception exactly when a row was
  interrupted.
\<close>

theorem final_persist_on_every_exit:
  assumes "has_status (working_frame original_df out)"
    and "first_unprocessed (working_frame original_df out) = Some first"
  shows "(\<exists>pre. trace (fst (main fmt w original_df out loaded fs now)) =
            DriverStarted # pre @ DriverQuit #
              CsvWrite (cur_df (fst (main fmt w original_df out loaded fs now))) #
              (if to_csv_io (final_io w) = Succeeds \<and> replace_csv_io (final_io w) = Succeeds
               then XlsxWrite (cur_df (fst (main fmt w original_df out loaded fs now))) #
                    (if to_excel_io (final_io w) = Succeeds
                     then [MetaWrite (cur_meta (fst (main fmt w original_df out loaded fs now)))]
                     else [])
               else [])
            \<and> DriverQuit \<notin> set pre)
       \<and> length (rows (cur_df (fst (main fmt w original_df out loaded fs now))))
           = length (rows (working_frame original_df out))
       \<and> (snd (main fmt w original_df out loaded fs now) =
            (if \<exists>idx \<in> {first..<length (rows (working_frame original_df out))}.
                  interrupt w idx \<noteq> None
             then Propagated else Returned))
       \<and> (to_csv_io (final_io w) = Succeeds \<and> replace_csv_io (final_io w) = Succeeds \<longrightarrow>
            disk (fst (main fmt w original_df out loaded fs now)) OUTPUT_CSV
              = Some (Whole (Csv (cur_df (fst (main fmt w original_df out loaded fs now))))))
       \<and> (to_csv_io (final_io w) = Succeeds \<and> replace_csv_io (final_io w) = Succeeds
            \<and> to_excel_io (final_io w) = Succeeds
            \<and> json_dump_io (final_io w) = Succeeds \<and> replace_json_io (final_io w) = Succeeds \<longrightarrow>
            disk (fst (main fmt w original_df out loaded fs now)) CHECKPOINT_JSON
              = Some (Whole (Json (cur_meta (fst (main fmt w original_df out loaded fs now))))))"
proof -
  define df where "df = working_frame original_df out"
  define s1 where "s1 = \<lparr>cur_df = df,
      cur_meta = (case loaded of None \<Rightarrow> \<lparr>last_processed_index = None\<rparr> | Some m \<Rightarrow> m),
      processed_since_save = 0, disk = fs, clock = now, trace = [DriverStarted]\<rparr>"
  obtain s2 ex where rr: "run_rows fmt w [first..<length (rows df)] s1 = (s2, ex)"
    by (metis prod.exhaust)
  have m: "main fmt w original_df out loaded fs now =
      (finally_block (final_io w) s2, case ex of Completed \<Rightarrow> Returned | Raised \<Rightarrow> Propagated)"
    using assms rr by (simp add: main_def Let_def df_def s1_def)
  have R: "fst (main fmt w original_df out loaded fs now) = finally_block (final_io w) s2"
    by (simp add: m)
  from run_rows_trace[of fmt w "[first..<length (rows df)]" s1] rr
  obtain pre where pre: "trace s2 = DriverStarted # pre" "DriverQuit \<notin> set pre"
    by (auto simp: s1_def)
  have tr: "\<exists>pre. trace (finally_block (final_io w) s2) =
            DriverStarted # pre @ DriverQuit #
              CsvWrite (cur_df (finally_block (final_io w) s2)) #
              (if to_csv_io (final_io w) = Succeeds \<and> replace_csv_io (final_io w) = Succeeds
               then XlsxWrite (cur_df (finally_block (final_io w) s2)) #
                    (if to_excel_io (final_io w) = Succeeds
                     then [MetaWrite (cur_meta (finally_block (final_io w) s2))]
                     else [])
               else [])
            \<and> DriverQuit \<notin> set pre"
    using pre by (simp add: finally_block_fields final_save_events_exact)
  have len: "length (rows (cur_df (finally_block (final_io w) s2))) = length (rows df)"
    using run_rows_length[of fmt w "[first..<length (rows df)]" s1] rr
    by (simp add: finally_block_fields s1_def)
  have ex: "(case ex of Completed \<Rightarrow> Returned | Raised \<Rightarrow> Propagated) =
      (if \<exists>idx \<in> {first..<length (rows df)}. interrupt w idx \<noteq> None
       then Propagated else Returned)"
    using run_rows_exit[of fmt w "[first..<length (rows df)]" s1] rr
    by (cases ex) auto
  have csv: "to_csv_io (final_io w) = Succeeds \<and> replace_csv_io (final_io w) = Succeeds \<longrightarrow>
      disk (finally_block (final_io w) s2) OUTPUT_CSV
        = Some (Whole (Csv (cur_df (finally_block (final_io w) s2))))"
    by (simp add: finally_block_fields final_save_disk_csv)
  have meta: "to_csv_io (final_io w) = Succeeds \<and> replace_csv_io (final_io w) = Succeeds
      \<and> to_excel_io (final_io w) = Succeeds
      \<and> json_dump_io (final_io w) = Succeeds \<and> replace_json_io (final_io w) = Succeeds \<longrightarrow>
      disk (finally_block (final_io w) s2) CHECKPOINT_JSON
        = Some (Whole (Json (cur_meta (finally_block (final_io w) s2))))"
    using final_save_all_succeed[of "final_io w" "cur_df s2" "cur_meta s2" "disk s2"]
    by (simp add: finally_block_fields)
  have sn: "snd (main fmt w original_df out loaded fs now) =
      (if \<exists>idx \<in> {first..<length (rows df)}. interrupt w idx \<noteq> None
       then Propagated else Returned)"
    using ex by (simp add: m)
  show ?thesis
    unfolding R using tr len sn csv meta unfolding df_def by blast
qed

theorem final_persist_on_every_exit_witness:
  "has_status (working_frame [\<lparr>o_url = Str ''http://a.example'', o_other = ()\<rparr>] NoFile)
   \<and> first_unprocessed (working_frame [\<lparr>o_url = Str ''http://a.example'', o_other = ()\<rparr>] NoFile)
       = Some 0
   \<and> snd (main (\<lambda>t. ''?'')
      \<lparr>requests_get = (\<lambda>i u. StatusCode 200),
       chrome = (\<lambda>i. \<lparr>navigate = (\<lambda>u. (Loaded, 1)), waits = (\<lambda>n t. (BodyLen 100, 1))\<rparr>),
       interrupt = (\<lambda>i. Some WhileSaving),
       autosave_io = (\<lambda>i. \<lparr>tmp_rnd = ''a'', to_csv_io = Succeeds, replace_csv_io = Succeeds,
          to_excel_io = Succeeds, json_dump_io = Succeeds, replace_json_io = Succeeds\<rparr>),
       final_io = \<lparr>tmp_rnd = ''a'', to_csv_io = Succeeds, replace_csv_io = Succeeds,
          to_excel_io = Succeeds, json_dump_io = Succeeds, replace_json_io = Succeeds\<rparr>\<rparr>
      [\<lparr>o_url = Str ''http://a.example'', o_other = ()\<rparr>] NoFile None (Map.empty :: unit fs) 0)
       = Propagated
   \<and> disk (fst (main (\<lambda>t. ''?'')
      \<lparr>requests_get = (\<lambda>i u. StatusCode 200),
       chrome = (\<lambda>i. \<lparr>navigate = (\<lambda>u. (Loaded, 1)), waits = (\<lambda>n t. (BodyLen 100, 1))\<rparr>),
       interrupt = (\<lambda>i. Some WhileSaving),
       autosave_io = (\<lambda>i. \<lparr>tmp_rnd = ''a'', to_csv_io = Succeeds, replace_csv_io = Succeeds,
          to_excel_io = Succeeds, json_dump_io = Succeeds, replace_json_io = Succeeds\<rparr>),
       final_io = \<lparr>tmp_rnd = ''a'', to_csv_io = Succeeds, replace_csv_io = Succeeds,
          to_excel_io = Succeeds, json_dump_io = Succeeds, replace_json_io = Succeeds\<rparr>\<rparr>
      [\<lparr>o_url = Str ''http://a.example'', o_other = ()\<rparr>] NoFile None (Map.empty :: unit fs) 0))
      OUTPUT_CSV
       = Some (Whole (Csv (cur_df (fst (main (\<lambda>t. ''?'')
      \<lparr>requests_get = (\<lambda>i u. StatusCode 200),
       chrome = (\<lambda>i. \<lparr>navigate = (\<lambda>u. (Loaded, 1)), waits = (\<lambda>n t. (BodyLen 100, 1))\<rparr>),
       interrupt = (\<lambda>i. Some WhileSaving),
       autosave_io = (\<lambda>i. \<lparr>tmp_rnd = ''a'', to_csv_io = Succeeds, replace_csv_io = Succeeds,
          to_excel_io = Succeeds, json_dump_io = Succeeds, replace_json_io = Succeeds\<rparr>),
       final_io = \<lparr>tmp_rnd = ''a'', to_csv_io = Succeeds, replace_csv_io = Succeeds,
          to_excel_io = Succeeds, json_dump_io = Succeeds, replace_json_io = Succeeds\<rparr>\<rparr>
      [\<lparr>o_url = Str ''http://a.example'', o_other = ()\<rparr>] NoFile None (Map.empty :: unit fs) 0)))))
   \<and> disk (fst (main (\<lambda>t. ''?'')
      \<lparr>requests_get = (\<lambda>i u. StatusCode 200),
       chrome = (\<lambda>i. \<lparr>navigate = (\<lambda>u. (Loaded, 1)), waits = (\<lambda>n t. (BodyLen 100, 1))\<rparr>),
       interrupt = (\<lambda>i. Some WhileSaving),
       autosave_io = (\<lambda>i. \<lparr>tmp_rnd = ''a'', to_csv_io = Succeeds, replace_csv_io = Succeeds,
          to_excel_io = Succeeds, json_dump_io = Succeeds, replace_json_io = Succeeds\<rparr>),
       final_io = \<lparr>tmp_rnd = ''a'', to_csv_io = Succeeds, replace_csv_io = Succeeds,
          to_excel_io = Succeeds, json_dump_io = Succeeds, replace_json_io = Succeeds\<rparr>\<rparr>
      [\<lparr>o_url = Str ''http://a.example'', o_other = ()\<rparr>] NoFile None (Map.empty :: unit fs) 0))
      CHECKPOINT_JSON
       = Some (Whole (Json (cur_meta (fst (main (\<lambda>t. ''?'')
      \<lparr>requests_get = (\<lambda>i u. StatusCode 200),
       chrome = (\<lambda>i. \<lparr>navigate = (\<lambda>u. (Loaded, 1)), waits = (\<lambda>n t. (BodyLen 100, 1))\<rparr>),
       interrupt = (\<lambda>i. Some WhileSaving),
       autosave_io = (\<lambda>i. \<lparr>tmp_rnd = ''a'', to_csv_io = Succeeds, replace_csv_io = Succeeds,
          to_excel_io = Succeeds, json_dump_io = Succeeds, replace_json_io = Succeeds\<rparr>),
       final_io = \<lparr>tmp_rnd = ''a'', to_csv_io = Succeeds, replace_csv_io = Succeeds,
          to_excel_io = Succeeds, json_dump_io = Succeeds, replace_json_io = Succeeds\<rparr>\<rparr>
      [\<lparr>o_url = Str ''http://a.example'', o_other = ()\<rparr>] NoFile None (Map.empty :: unit fs) 0)))))"
proof -
  define orig :: "unit orig_row list" where "orig = [\<lparr>o_url = Str ''http://a.example'', o_other = ()\<rparr>]"
  define w where "w =
      \<lparr>requests_get = (\<lambda>(i::nat) (u::string). StatusCode 200),
       chrome = (\<lambda>i::nat. \<lparr>navigate = (\<lambda>u. (Loaded, 1)), waits = (\<lambda>n t. (BodyLen 100, 1))\<rparr>),
       interrupt = (\<lambda>i::nat. Some WhileSaving),
       autosave_io = (\<lambda>i::nat. \<lparr>tmp_rnd = ''a'', to_csv_io = Succeeds, replace_csv_io = Succeeds,
          to_excel_io = Succeeds, json_dump_io = Succeeds, replace_json_io = Succeeds\<rparr>),
       final_io = \<lparr>tmp_rnd = ''a'', to_csv_io = Succeeds, replace_csv_io = Succeeds,
          to_excel_io = Succeeds, json_dump_io = Succeeds, replace_json_io = Succeeds\<rparr>\<rparr>"
  have wf: "working_frame orig NoFile = start_fresh orig"
    by (simp add: working_frame_def)
  have h1: "has_status (working_frame orig NoFile)"
    unfolding wf by (simp add: start_fresh_def)
  have h2: "first_unprocessed (working_frame orig NoFile) = Some 0"
    unfolding wf
    by (simp add: orig_def start_fresh_def fresh_row_def first_unprocessed_def is_unprocessed_def
        strip_def)
  have len: "length (rows (working_frame orig NoFile)) = Suc 0"
    unfolding wf by (simp add: orig_def start_fresh_def)
  have io: "to_csv_io (final_io w) = Succeeds" "replace_csv_io (final_io w) = Succeeds"
    "to_excel_io (final_io w) = Succeeds" "json_dump_io (final_io w) = Succeeds"
    "replace_json_io (final_io w) = Succeeds"
    by (simp_all add: w_def)
  have intr: "\<exists>idx \<in> {0..<Suc 0}. interrupt w idx \<noteq> None"
    by (simp add: w_def)
  note t = final_persist_on_every_exit[OF h1 h2, where fmt = "\<lambda>t. ''?''" and w = w
      and loaded = None and fs = "Map.empty :: unit fs" and now = 0]
  from t[THEN conjunct2, THEN conjunct2, THEN conjunct1] intr
  have a: "snd (main (\<lambda>t. ''?'') w orig NoFile None (Map.empty :: unit fs) 0) = Propagated"
    unfolding len by simp
  from t[THEN conjunct2, THEN conjunct2, THEN conjunct2, THEN conjunct1] io
  have b: "disk (fst (main (\<lambda>t. ''?'') w orig NoFile None (Map.empty :: unit fs) 0)) OUTPUT_CSV
      = Some (Whole (Csv (cur_df (fst (main (\<lambda>t. ''?'') w orig NoFile None (Map.empty :: unit fs) 0)))))"
    by blast
  from t[THEN conjunct2, THEN conjunct2, THEN conjunct2, THEN conjunct2] io
  have c: "disk (fst (main (\<lambda>t. ''?'') w orig NoFile None (Map.empty :: unit fs) 0)) CHECKPOINT_JSON
      = Some (Whole (Json (cur_meta (fst (main (\<lambda>t. ''?'') w orig NoFile None (Map.empty :: unit fs) 0)))))"
    by blast
  from h1 h2 a b c show ?thesis unfolding w_def orig_def by blast
qed

text \<open>
  C1. The loop runs over every index from the first unprocessed row to the end of the
  table (line 282) without looking at the status of the row, so a row that is already
  resolved and lies after the first unprocessed one is verified again and its status
  and detail are overwritten. The input has the rows A, B, C; the previous output has A
  and C, both valid; the merge by URL gives A valid, B unprocessed, C valid. The browser
  now fails to load any page. The run calls the renderer for C and changes the status of
  C from valid to invalid.
\<close>

theorem resolved_row_reverified:
  "map status (rows (working_frame
      [\<lparr>o_url = Str ''http://a.example'', o_other = ()\<rparr>,
       \<lparr>o_url = Str ''http://b.example'', o_other = ()\<rparr>,
       \<lparr>o_url = Str ''http://c.example'', o_other = ()\<rparr>]
      (Parsed \<lparr>has_url = True, has_status = True, has_detail = True,
         rows = [\<lparr>url_cell = Str ''http://a.example'', other = (), status = Str ''valid'',
                  status_detail = Str ''d''\<rparr>,
                 \<lparr>url_cell = Str ''http://c.example'', other = (), status = Str ''valid'',
                  status_detail = Str ''d''\<rparr>]\<rparr>)))
     = [Str ''valid'', NaN, Str ''valid'']
   \<and> first_unprocessed (working_frame
      [\<lparr>o_url = Str ''http://a.example'', o_other = ()\<rparr>,
       \<lparr>o_url = Str ''http://b.example'', o_other = ()\<rparr>,
       \<lparr>o_url = Str ''http://c.example'', o_other = ()\<rparr>]
      (Parsed \<lparr>has_url = True, has_status = True, has_detail = True,
         rows = [\<lparr>url_cell = Str ''http://a.example'', other = (), status = Str ''valid'',
                  status_detail = Str ''d''\<rparr>,
                 \<lparr>url_cell = Str ''http://c.example'', other = (), status = Str ''valid'',
                  status_detail = Str ''d''\<rparr>]\<rparr>)) = Some 1
   \<and> map url_cell (rows (cur_df (fst (main (\<lambda>t. ''?'')
      \<lparr>requests_get = (\<lambda>i u. StatusCode 200),
       chrome = (\<lambda>i. \<lparr>navigate = (\<lambda>u. (GetWebDriverError ''net::ERR_CONNECTION_REFUSED'', 1)),
                       waits = (\<lambda>n t. (BodyLen 0, 0))\<rparr>),
       interrupt = (\<lambda>i. None),
       autosave_io = (\<lambda>i. \<lparr>tmp_rnd = ''a'', to_csv_io = Succeeds, replace_csv_io = Succeeds,
          to_excel_io = Succeeds, json_dump_io = Succeeds, replace_json_io = Succeeds\<rparr>),
       final_io = \<lparr>tmp_rnd = ''a'', to_csv_io = Succeeds, replace_csv_io = Succeeds,
          to_excel_io = Succeeds, json_dump_io = Succeeds, replace_json_io = Succeeds\<rparr>\<rparr>
      [\<lparr>o_url = Str ''http://a.example'', o_other = ()\<rparr>,
       \<lparr>o_url = Str ''http://b.example'', o_other = ()\<rparr>,
       \<lparr>o_url = Str ''http://c.example'', o_other = ()\<rparr>]
      (Parsed \<lparr>has_url = True, has_status = True, has_detail = True,
         rows = [\<lparr>url_cell = Str ''http://a.example'', other = (), status = Str ''valid'',
                  status_detail = Str ''d''\<rparr>,
                 \<lparr>url_cell = Str ''http://c.example'', other = (), status = Str ''valid'',
                  status_detail = Str ''d''\<rparr>]\<rparr>)
      None (Map.empty :: unit fs) 0))))
     = [Str ''http://a.example'', Str ''http://b.example'', Str ''http://c.example'']
   \<and> map status (rows (cur_df (fst (main (\<lambda>t. ''?'')
      \<lparr>requests_get = (\<lambda>i u. StatusCode 200),
       chrome = (\<lambda>i. \<lparr>navigate = (\<lambda>u. (GetWebDriverError ''net::ERR_CONNECTION_REFUSED'', 1)),
                       waits = (\<lambda>n t. (BodyLen 0, 0))\<rparr>),
       interrupt = (\<lambda>i. None),
       autosave_io = (\<lambda>i. \<lparr>tmp_rnd = ''a'', to_csv_io = Succeeds, replace_csv_io = Succeeds,
          to_excel_io = Succeeds, json_dump_io = Succeeds, replace_json_io = Succeeds\<rparr>),
       final_io = \<lparr>tmp_rnd = ''a'', to_csv_io = Succeeds, replace_csv_io = Succeeds,
          to_excel_io = Succeeds, json_dump_io = Succeeds, replace_json_io = Succeeds\<rparr>\<rparr>
      [\<lparr>o_url = Str ''http://a.example'', o_other = ()\<rparr>,
       \<lparr>o_url = Str ''http://b.example'', o_other = ()\<rparr>,
       \<lparr>o_url = Str ''http://c.example'', o_other = ()\<rparr>]
      (Parsed \<lparr>has_url = True, has_status = True, has_detail = True,
         rows = [\<lparr>url_cell = Str ''http://a.example'', other = (), status = Str ''valid'',
                  status_detail = Str ''d''\<rparr>,
                 \<lparr>url_cell = Str ''http://c.example'', other = (), status = Str ''valid'',
                  status_detail = Str ''d''\<rparr>]\<rparr>)
      None (Map.empty :: unit fs) 0))))
     = [Str ''valid'', Str ''invalid'', Str ''invalid'']
   \<and> Called (Render ''http://c.example'') \<in> set (trace (fst (main (\<lambda>t. ''?'')
      \<lparr>requests_get = (\<lambda>i u. StatusCode 200),
       chrome = (\<lambda>i. \<lparr>navigate = (\<lambda>u. (GetWebDriverError ''net::ERR_CONNECTION_REFUSED'', 1)),
                       waits = (\<lambda>n t. (BodyLen 0, 0))\<rparr>),
       interrupt = (\<lambda>i. None),
       autosave_io = (\<lambda>i. \<lparr>tmp_rnd = ''a'', to_csv_io = Succeeds, replace_csv_io = Succeeds,
          to_excel_io = Succeeds, json_dump_io = Succeeds, replace_json_io = Succeeds\<rparr>),
       final_io = \<lparr>tmp_rnd = ''a'', to_csv_io = Succeeds, replace_csv_io = Succeeds,
          to_excel_io = Succeeds, json_dump_io = Succeeds, replace_json_io = Succeeds\<rparr>\<rparr>
      [\<lparr>o_url = Str ''http://a.example'', o_other = ()\<rparr>,
       \<lparr>o_url = Str ''http://b.example'', o_other = ()\<rparr>,
       \<lparr>o_url = Str ''http://c.example'', o_other = ()\<rparr>]
      (Parsed \<lparr>has_url = True, has_status = True, has_detail = True,
         rows = [\<lparr>url_cell = Str ''http://a.example'', other = (), status = Str ''valid'',
                  status_detail = Str ''d''\<rparr>,
                 \<lparr>url_cell = Str ''http://c.example'', other = (), status = Str ''valid'',
                  status_detail = Str ''d''\<rparr>]\<rparr>)
      None (Map.empty :: unit fs) 0)))"
proof -
  define orig :: "unit orig_row list" where "orig =
      [\<lparr>o_url = Str ''http://a.example'', o_other = ()\<rparr>,
       \<lparr>o_url = Str ''http://b.example'', o_other = ()\<rparr>,
       \<lparr>o_url = Str ''http://c.example'', o_other = ()\<rparr>]"
  define prev :: "unit frame" where "prev =
      \<lparr>has_url = True, has_status = True, has_detail = True,
         rows = [\<lparr>url_cell = Str ''http://a.example'', other = (), status = Str ''valid'',
                  status_detail = Str ''d''\<rparr>,
                 \<lparr>url_cell = Str ''http://c.example'', other = (), status = Str ''valid'',
                  status_detail = Str ''d''\<rparr>]\<rparr>"
  define w where "w =
      \<lparr>requests_get = (\<lambda>(i::nat) (u::string). StatusCode 200),
       chrome = (\<lambda>i::nat. \<lparr>navigate = (\<lambda>u. (GetWebDriverError ''net::ERR_CONNECTION_REFUSED'', 1)),
                       waits = (\<lambda>n t. (BodyLen 0, 0))\<rparr>),
       interrupt = (\<lambda>i::nat. None),
       autosave_io = (\<lambda>i::nat. \<lparr>tmp_rnd = ''a'', to_csv_io = Succeeds, replace_csv_io = Succeeds,
          to_excel_io = Succeeds, json_dump_io = Succeeds, replace_json_io = Succeeds\<rparr>),
       final_io = \<lparr>tmp_rnd = ''a'', to_csv_io = Succeeds, replace_csv_io = Succeeds,
          to_excel_io = Succeeds, json_dump_io = Succeeds, replace_json_io = Succeeds\<rparr>\<rparr>"
  define fmt :: "real \<Rightarrow> string" where "fmt = (\<lambda>t. ''?'')"
  define df0 :: "unit frame" where "df0 =
      \<lparr>has_url = True, has_status = True, has_detail = True,
         rows = [\<lparr>url_cell = Str ''http://a.example'', other = (), status = Str ''valid'',
                  status_detail = Str ''d''\<rparr>,
                 \<lparr>url_cell = Str ''http://b.example'', other = (), status = NaN,
                  status_detail = NaN\<rparr>,
                 \<lparr>url_cell = Str ''http://c.example'', other = (), status = Str ''valid'',
                  status_detail = Str ''d''\<rparr>]\<rparr>"
  define s1 :: "unit run" where "s1 = \<lparr>cur_df = df0, cur_meta = \<lparr>last_processed_index = None\<rparr>,
      processed_since_save = 0, disk = Map.empty, clock = 0, trace = [DriverStarted]\<rparr>"
  have wf: "working_frame orig (Parsed prev) = df0"
    by (simp add: orig_def prev_def df0_def working_frame_def merge_by_url_def merge_raises_def
        column_dtype_def joined_def unmatched_def)
  have fu: "first_unprocessed df0 = Some (Suc 0)"
    by (simp add: df0_def first_unprocessed_def is_unprocessed_def strip_def isspace_def)
  have up: "[Suc 0..<3] = [Suc 0, 2]"
    by (simp add: upt_conv_Cons)
  have m: "main fmt w orig (Parsed prev) None Map.empty 0 =
      (finally_block (final_io w) (fst (run_rows fmt w [Suc 0, 2] s1)),
       case snd (run_rows fmt w [Suc 0, 2] s1) of Completed \<Rightarrow> Returned | Raised \<Rightarrow> Propagated)"
  proof -
    have l: "length (rows df0) = 3" and hs: "has_status df0"
      by (simp_all add: df0_def)
    show ?thesis
      by (simp add: main_def wf Let_def s1_def fu l hs up case_prod_beta del: run_rows.simps)
  qed
  have down: "\<exists>det t'. verify_cell fmt (requests_get w i) (chrome w i) c t =
      ((''invalid'', det), [Probe (effective_url (strip (str c))), Render (effective_url (strip (str c)))], t')"
    if "\<not> is_empty_url (strip (str c))" for i c t
    using that by (simp add: verify_cell_def check_with_selenium_def w_def Let_def split: prod.splits)
  have nb: "\<not> is_empty_url (strip (str (Str ''http://b.example'')))"
    by (simp add: strip_def isspace_def is_empty_url_def lower_def lower_char_def)
  have nc: "\<not> is_empty_url (strip (str (Str ''http://c.example'')))"
    by (simp add: strip_def isspace_def is_empty_url_def lower_def lower_char_def)
  have ec: "effective_url (strip (str (Str ''http://c.example''))) = ''http://c.example''"
    by (simp add: effective_url_def strip_def isspace_def lower_def lower_char_def)
  have ni: "interrupt w i = None" for i
    by (simp add: w_def)
  have u1: "url_cell (rows (cur_df s1) ! Suc 0) = Str ''http://b.example''"
    by (simp add: s1_def df0_def)
  from down[OF nb, of "Suc 0" "clock s1"] obtain det1 t1 cs1 where
    v1: "verify_cell fmt (requests_get w (Suc 0)) (chrome w (Suc 0))
           (url_cell (rows (cur_df s1) ! Suc 0)) (clock s1) = ((''invalid'', det1), cs1, t1)"
    unfolding u1 by blast
  define s2 where "s2 = fst (loop_body fmt w (Suc 0) s1)"
  have b1: "loop_body fmt w (Suc 0) s1 = (s2, Completed)"
    using loop_body_plain(1)[OF ni v1] by (simp add: s2_def prod_eq_iff)
  have d2: "cur_df s2 = set_result df0 (Suc 0) ''invalid'' det1"
    using loop_body_plain(2)[OF ni v1] by (simp add: s2_def s1_def)
  have u2: "url_cell (rows (cur_df s2) ! 2) = Str ''http://c.example''"
    by (simp add: d2 set_result_def df0_def)
  from down[OF nc, of 2 "clock s2"] obtain det2 t2 where
    v2: "verify_cell fmt (requests_get w 2) (chrome w 2)
           (url_cell (rows (cur_df s2) ! 2)) (clock s2)
         = ((''invalid'', det2), [Probe ''http://c.example'', Render ''http://c.example''], t2)"
    unfolding u2 ec by blast
  define s3 where "s3 = fst (loop_body fmt w 2 s2)"
  have b2: "loop_body fmt w 2 s2 = (s3, Completed)"
    using loop_body_plain(1)[OF ni v2] by (simp add: s3_def prod_eq_iff)
  have d3: "cur_df s3 = set_result (set_result df0 (Suc 0) ''invalid'' det1) 2 ''invalid'' det2"
    using loop_body_plain(2)[OF ni v2] by (simp add: s3_def d2)
  from loop_body_plain(4)[OF ni v2] obtain evs where
    t3: "trace s3 = trace s2 @ map Called [Probe ''http://c.example'', Render ''http://c.example''] @ evs"
    unfolding s3_def by blast
  have rr: "run_rows fmt w [Suc 0, 2] s1 = (s3, Completed)"
    by (simp add: b1 b2)
  have mm: "fst (main fmt w orig (Parsed prev) None Map.empty 0) = finally_block (final_io w) s3"
    unfolding m rr by simp
  have r1: "map status (rows (working_frame orig (Parsed prev))) = [Str ''valid'', NaN, Str ''valid'']"
    by (simp add: wf df0_def)
  have r2: "first_unprocessed (working_frame orig (Parsed prev)) = Some 1"
    using fu by (simp add: wf)
  have r3: "map url_cell (rows (cur_df (fst (main fmt w orig (Parsed prev) None Map.empty 0))))
      = [Str ''http://a.example'', Str ''http://b.example'', Str ''http://c.example'']"
    by (simp add: mm finally_block_fields d3 set_result_def df0_def numeral_2_eq_2)
  have r4: "map status (rows (cur_df (fst (main fmt w orig (Parsed prev) None Map.empty 0))))
      = [Str ''valid'', Str ''invalid'', Str ''invalid'']"
    by (simp add: mm finally_block_fields d3 set_result_def df0_def numeral_2_eq_2)
  have r5: "Called (Render ''http://c.example'')
      \<in> set (trace (fst (main fmt w orig (Parsed prev) None Map.empty 0)))"
    by (simp add: mm finally_block_fields t3)
  from r1 r2 r3 r4 r5 show ?thesis
    unfolding orig_def prev_def w_def fmt_def by blast
qed

end
